theory Spec2Isabelle
  imports Complex_Main "HOL-Library.Signed_Division"
begin

unbundle bit_operations_syntax

section \<open>Go values\<close>

text \<open>
  Go's \<^verbatim>\<open>int\<close> is modelled by \<^typ>\<open>int\<close> (no claim below depends on wrap-around),
  \<^verbatim>\<open>float32\<close>/\<^verbatim>\<open>float64\<close> by \<^typ>\<open>rat\<close> (the code only converts integers, halves
  a sum of two integers, takes a maximum, compares and truncates, all of which are exact on the
  values involved), a pointer to an entity by an address into an explicit store, and a run-time
  panic by a value of type \<^typ>\<open>'a + 'b\<close> built with \<^const>\<open>Inl\<close>.
\<close>

datatype panic = IndexOutOfRange | DivideByZero | NilDereference | Panic string

text \<open>Conversion \<^verbatim>\<open>int(f)\<close> of a float: truncation toward zero.\<close>

definition go_int :: "rat \<Rightarrow> int" where
  "go_int r = (if 0 \<le> r then \<lfloor>r\<rfloor> else \<lceil>r\<rceil>)"

section \<open>Cells, terrain and highlights (package main)\<close>

text \<open>The declaration of \<^verbatim>\<open>Terrain\<close> is not among the sources; its four constants are the ones
  \<^verbatim>\<open>LoadLevel\<close> and \<^verbatim>\<open>Render\<close> name.\<close>

datatype Terrain = Grass | Brush | Water | Dirt

datatype Highlight = None_hl | Reachable | Attackable | MouseOver

record CellData =
  Terrain :: Terrain
  highlight :: Highlight

definition Clear :: "CellData \<Rightarrow> CellData" where
  "Clear t = t\<lparr>highlight := None_hl\<rparr>"

definition maxNormi :: "int \<Rightarrow> int \<Rightarrow> int \<Rightarrow> int \<Rightarrow> int" where
  "maxNormi x y x2 y2 =
     (let dx = x2 - x; dx = (if dx < 0 then - dx else dx);
          dy = y2 - y; dy = (if dy < 0 then - dy else dy)
      in if dx > dy then dx else dy)"

type_synonym Grid = "CellData list list"

text \<open>\<^verbatim>\<open>s.grid[x][y]\<close>: both indexings are bounds-checked.\<close>

definition cell :: "Grid \<Rightarrow> int \<Rightarrow> int \<Rightarrow> panic + CellData" where
  "cell g x y =
     (if 0 \<le> x \<and> x < int (length g) then
        (if 0 \<le> y \<and> y < int (length (g ! nat x)) then Inr (g ! nat x ! nat y)
         else Inl IndexOutOfRange)
      else Inl IndexOutOfRange)"

text \<open>\<^verbatim>\<open>len(s.grid[0])\<close>.\<close>

definition len_grid0 :: "Grid \<Rightarrow> panic + int" where
  "len_grid0 g = (case g of [] \<Rightarrow> Inl IndexOutOfRange | r # _ \<Rightarrow> Inr (int (length r)))"

definition NumVertex :: "Grid \<Rightarrow> panic + int" where
  "NumVertex g = (case len_grid0 g of Inl e \<Rightarrow> Inl e | Inr n \<Rightarrow> Inr (int (length g) * n))"

text \<open>Go's \<^verbatim>\<open>%\<close> and \<^verbatim>\<open>/\<close> on integers truncate toward zero and panic on a zero divisor.\<close>

definition fromVertex :: "Grid \<Rightarrow> int \<Rightarrow> panic + (int \<times> int)" where
  "fromVertex g v =
     (if length g = 0 then Inl DivideByZero
      else Inr (v smod int (length g), v sdiv int (length g)))"

definition toVertex :: "Grid \<Rightarrow> int \<Rightarrow> int \<Rightarrow> int" where
  "toVertex g x y = x + y * int (length g)"

section \<open>Entities and the level (package main)\<close>

text \<open>
  The declarations of \<^verbatim>\<open>entity\<close> and of the weapon interface are not among the sources. The
  records below hold exactly the fields and methods the level code reads or writes (the weapon's
  methods \<^verbatim>\<open>Cost()\<close> and \<^verbatim>\<open>Reach()\<close> are the fields \<open>Cost_w\<close> and \<open>Reach_w\<close>):
  \<^verbatim>\<open>pos.X\<close>/\<^verbatim>\<open>pos.Y\<close>, \<^verbatim>\<open>AP\<close>, \<^verbatim>\<open>Health\<close>, \<^verbatim>\<open>Base.Weapons\<close>, \<^verbatim>\<open>Base.Move_cost\<close>, \<^verbatim>\<open>path\<close>,
  and the sprite \<^verbatim>\<open>s\<close>, kept as the list of commands sent to it, oldest first.
  \<^verbatim>\<open>turnToFace\<close> is taken to record the point faced and nothing else.
\<close>

record Weapon =
  Cost_w :: int
  Reach_w :: int

record entity =
  pos :: "rat \<times> rat"
  AP :: int
  Health :: int
  Weapons :: "Weapon list"
  Move_cost :: "Terrain \<Rightarrow> int option"
  path :: "(int \<times> int) list"
  s :: "string list"
  facing :: "(rat \<times> rat) option"

definition Command_e :: "string \<Rightarrow> entity \<Rightarrow> entity" where
  "Command_e c e = e\<lparr>s := s e @ [c]\<rparr>"

definition turnToFace :: "rat \<times> rat \<Rightarrow> entity \<Rightarrow> entity" where
  "turnToFace p e = e\<lparr>facing := Some p\<rparr>"

datatype Command = NoCommand | Move | Attack

type_synonym ref = nat

text \<open>
  \<^verbatim>\<open>Level\<close>. Entities are reached through pointers in the source; \<open>store\<close> maps each address
  to the entity it holds, \<open>entities\<close> and \<open>selected\<close> hold addresses (\<^const>\<open>None\<close> is
  \<^verbatim>\<open>nil\<close>). The \<^verbatim>\<open>terrain\<close> widget is not part of the state: its coordinate conversion is a
  parameter of \<^verbatim>\<open>Think\<close> and what is handed to it for drawing is an output.
\<close>

record Level =
  grid :: Grid
  cached :: bool
  entities :: "ref list"
  selected :: "ref option"
  winx :: int
  winy :: int
  command :: Command
  reachable :: "int list"
  in_range :: "int list"
  store :: "ref \<Rightarrow> entity"

definition upd_entity :: "ref \<Rightarrow> (entity \<Rightarrow> entity) \<Rightarrow> Level \<Rightarrow> Level" where
  "upd_entity r f l = l\<lparr>store := (store l)(r := f (store l r))\<rparr>"

section \<open>The grid as a weighted graph\<close>

type_synonym edge = "int \<times> rat"

text \<open>\<^verbatim>\<open>costToMove\<close>: a missing key of the movement profile gives \<open>-1\<close>.\<close>

definition costToMove :: "Grid \<Rightarrow> (Terrain \<Rightarrow> int option) \<Rightarrow> int \<Rightarrow> int \<Rightarrow> panic + rat" where
  "costToMove g move_cost src dst =
     (case fromVertex g src of Inl e \<Rightarrow> Inl e | Inr (x, y) \<Rightarrow>
      case fromVertex g dst of Inl e \<Rightarrow> Inl e | Inr (x2, y2) \<Rightarrow>
      case cell g x2 y2 of Inl e \<Rightarrow> Inl e | Inr c \<Rightarrow>
      (case move_cost (Terrain c) of None \<Rightarrow> Inr (- 1) | Some cost_c \<Rightarrow>
         if x = x2 \<or> y = y2 then Inr (of_int cost_c)
         else
           case cell g x y2 of Inl e \<Rightarrow> Inl e | Inr a \<Rightarrow>
           (case move_cost (Terrain a) of None \<Rightarrow> Inr (- 1) | Some cost_a \<Rightarrow>
              case cell g x2 y of Inl e \<Rightarrow> Inl e | Inr b \<Rightarrow>
              (case move_cost (Terrain b) of None \<Rightarrow> Inr (- 1) | Some cost_b \<Rightarrow>
                 Inr (max (of_int (cost_a + cost_b) / 2) (of_int cost_c))))))"

text \<open>The occupancy loop of \<^verbatim>\<open>Adjacent\<close>: some entity of the level stands on cell \<open>(cx, cy)\<close>.\<close>

definition occupied :: "Level \<Rightarrow> int \<Rightarrow> int \<Rightarrow> bool" where
  "occupied l cx cy =
     (\<exists>r \<in> set (entities l).
        go_int (fst (pos (store l r))) = cx \<and> go_int (snd (pos (store l r))) = cy)"

text \<open>
  The inner loop of \<^verbatim>\<open>Adjacent\<close> over the remaining values of \<open>dy\<close>, threading the two result
  arrays (the source keeps vertices and weights in parallel arrays that are always appended to
  together; here an edge is the pair).
\<close>

fun Adjacent_dy ::
  "Level \<Rightarrow> (Terrain \<Rightarrow> int option) \<Rightarrow> int \<Rightarrow> int \<Rightarrow> int \<Rightarrow> int list \<Rightarrow>
     edge list \<times> edge list \<Rightarrow> panic + (edge list \<times> edge list)" where
  "Adjacent_dy l mc x y dx [] acc = Inr acc"
| "Adjacent_dy l mc x y dx (dy # dys) (adj, adj_diag) =
     (if dx = 0 \<and> dy = 0 then Adjacent_dy l mc x y dx dys (adj, adj_diag)
      else
        case len_grid0 (grid l) of Inl e \<Rightarrow> Inl e | Inr n \<Rightarrow>
        if y + dy < 0 \<or> y + dy \<ge> n then Adjacent_dy l mc x y dx dys (adj, adj_diag)
        else if occupied l (x + dx) (y + dy) then Adjacent_dy l mc x y dx dys (adj, adj_diag)
        else
          case costToMove (grid l) mc (toVertex (grid l) x y) (toVertex (grid l) (x + dx) (y + dy)) of
            Inl e \<Rightarrow> Inl e
          | Inr cost \<Rightarrow>
              if cost < 0 then Adjacent_dy l mc x y dx dys (adj, adj_diag)
              else if dx \<noteq> 0 \<and> dy \<noteq> 0 then
                Adjacent_dy l mc x y dx dys
                  (adj, adj_diag @ [(toVertex (grid l) (x + dx) (y + dy), cost)])
              else
                Adjacent_dy l mc x y dx dys
                  (adj @ [(toVertex (grid l) (x + dx) (y + dy), cost)], adj_diag))"

text \<open>The outer loop over the remaining values of \<open>dx\<close>.\<close>

fun Adjacent_dx ::
  "Level \<Rightarrow> (Terrain \<Rightarrow> int option) \<Rightarrow> int \<Rightarrow> int \<Rightarrow> int list \<Rightarrow>
     edge list \<times> edge list \<Rightarrow> panic + (edge list \<times> edge list)" where
  "Adjacent_dx l mc x y [] acc = Inr acc"
| "Adjacent_dx l mc x y (dx # dxs) acc =
     (if x + dx < 0 \<or> x + dx \<ge> int (length (grid l)) then Adjacent_dx l mc x y dxs acc
      else
        case Adjacent_dy l mc x y dx [- 1, 0, 1] acc of
          Inl e \<Rightarrow> Inl e
        | Inr acc' \<Rightarrow> Adjacent_dx l mc x y dxs acc')"

definition Adjacent :: "Level \<Rightarrow> (Terrain \<Rightarrow> int option) \<Rightarrow> int \<Rightarrow> panic + edge list" where
  "Adjacent l mc v =
     (case fromVertex (grid l) v of Inl e \<Rightarrow> Inl e | Inr (x, y) \<Rightarrow>
      case Adjacent_dx l mc x y [- 1, 0, 1] ([], []) of
        Inl e \<Rightarrow> Inl e
      | Inr (adj, adj_diag) \<Rightarrow> Inr (adj @ adj_diag))"

section \<open>The highlight cache and the commands of the level\<close>

definition clearCache :: "Level \<Rightarrow> Level" where
  "clearCache l =
     (if \<not> cached l then l
      else l\<lparr>grid := map (map Clear) (grid l), cached := False\<rparr>)"

text \<open>\<^verbatim>\<open>l.grid[x][y].highlight = h\<close>, bounds-checked like every indexing.\<close>

definition set_highlight :: "Grid \<Rightarrow> int \<Rightarrow> int \<Rightarrow> Highlight \<Rightarrow> panic + Grid" where
  "set_highlight g x y h =
     (case cell g x y of
        Inl e \<Rightarrow> Inl e
      | Inr c \<Rightarrow> Inr (g[nat x := (g ! nat x)[nat y := c\<lparr>highlight := h\<rparr>]]))"

text \<open>The two loops of \<^verbatim>\<open>maintainCommand\<close>, over a list of vertices.\<close>

fun mark_cells :: "Grid \<Rightarrow> int list \<Rightarrow> Highlight \<Rightarrow> panic + Grid" where
  "mark_cells g [] h = Inr g"
| "mark_cells g (v # vs) h =
     (case fromVertex g v of Inl e \<Rightarrow> Inl e | Inr (x, y) \<Rightarrow>
      case set_highlight g x y h of Inl e \<Rightarrow> Inl e | Inr g' \<Rightarrow> mark_cells g' vs h)"

text \<open>\<^verbatim>\<open>maintainCommand\<close>. Its \<^verbatim>\<open>default\<close> branch panics on a command tag that is none of the
  three constants; the datatype has no such value.\<close>

definition maintainCommand :: "Level \<Rightarrow> panic + Level" where
  "maintainCommand l =
     (case command l of
        Move \<Rightarrow>
          (case mark_cells (grid l) (reachable l) Reachable of
             Inl e \<Rightarrow> Inl e | Inr g \<Rightarrow> Inr (l\<lparr>grid := g\<rparr>))
      | Attack \<Rightarrow>
          (case mark_cells (grid l) (in_range l) Attackable of
             Inl e \<Rightarrow> Inl e | Inr g \<Rightarrow> Inr (l\<lparr>grid := g\<rparr>))
      | NoCommand \<Rightarrow> Inr l)"

text \<open>\<^verbatim>\<open>l.selected.Base.Weapons[0]\<close>.\<close>

definition weapon0 :: "entity \<Rightarrow> panic + Weapon" where
  "weapon0 e = (case Weapons e of [] \<Rightarrow> Inl IndexOutOfRange | w # _ \<Rightarrow> Inr w)"

definition cell_x :: "Level \<Rightarrow> ref \<Rightarrow> int" where
  "cell_x l r = go_int (fst (pos (store l r)))"

definition cell_y :: "Level \<Rightarrow> ref \<Rightarrow> int" where
  "cell_y l r = go_int (snd (pos (store l r)))"

text \<open>The loop of \<^verbatim>\<open>PrepAttack\<close> over the remaining entities, appending to \<^verbatim>\<open>l.in_range\<close>.\<close>

fun PrepAttack_loop :: "Level \<Rightarrow> ref \<Rightarrow> Weapon \<Rightarrow> ref list \<Rightarrow> int list \<Rightarrow> int list" where
  "PrepAttack_loop l sel weapon [] acc = acc"
| "PrepAttack_loop l sel weapon (r # rs) acc =
     (if r = sel then PrepAttack_loop l sel weapon rs acc
      else
        let x = cell_x l r; y = cell_y l r; x2 = cell_x l sel; y2 = cell_y l sel;
            dist = maxNormi x y x2 y2
        in if dist > Reach_w weapon then PrepAttack_loop l sel weapon rs acc
           else PrepAttack_loop l sel weapon rs (acc @ [toVertex (grid l) x y]))"

definition PrepAttack :: "Level \<Rightarrow> panic + Level" where
  "PrepAttack l =
     (case selected l of None \<Rightarrow> Inr l | Some sel \<Rightarrow>
      case weapon0 (store l sel) of Inl e \<Rightarrow> Inl e | Inr weapon \<Rightarrow>
      if Cost_w weapon > AP (store l sel) then Inr l
      else
        let l1 = l\<lparr>in_range := PrepAttack_loop l sel weapon (entities l) []\<rparr>
        in if length (in_range l1) = 0 then Inr l1
           else Inr (clearCache (l1\<lparr>command := Attack\<rparr>)))"

text \<open>
  The result of \<^verbatim>\<open>weapon.Damage(attacker, target)\<close>: the code reads \<^verbatim>\<open>res.Connect\<close>, which it
  compares with \<^verbatim>\<open>Hit\<close>, and \<^verbatim>\<open>res.Damage.Piercing\<close>. \<open>Miss\<close> stands for every value other than
  \<^verbatim>\<open>Hit\<close>. The weapon's \<^verbatim>\<open>Damage\<close> method is a parameter of \<^verbatim>\<open>DoAttack\<close>.
\<close>

datatype Connect = Hit | Miss

record Resolution =
  Connect :: Connect
  Piercing :: int

definition DoAttack ::
  "(Weapon \<Rightarrow> entity \<Rightarrow> entity \<Rightarrow> Resolution) \<Rightarrow> Level \<Rightarrow> ref option \<Rightarrow> panic + Level" where
  "DoAttack Damage l target =
     (case selected l of None \<Rightarrow> Inr l | Some sel \<Rightarrow>
      case weapon0 (store l sel) of Inl e \<Rightarrow> Inl e | Inr weapon \<Rightarrow>
      if Cost_w weapon > AP (store l sel) then Inr l
      else
        let l1 = upd_entity sel (\<lambda>e. e\<lparr>AP := AP e - Cost_w weapon\<rparr>) l
        in case target of None \<Rightarrow> Inl NilDereference | Some t \<Rightarrow>
           let x = cell_x l1 t; y = cell_y l1 t; x2 = cell_x l1 sel; y2 = cell_y l1 sel;
               dist = maxNormi x y x2 y2
           in if dist > Reach_w weapon then Inr l1
              else
                let res = Damage weapon (store l1 sel) (store l1 t);
                    l2 = upd_entity sel (turnToFace (pos (store l1 t))) l1;
                    l3 = upd_entity sel
                           (Command_e (if Reach_w weapon > 2 then ''ranged'' else ''melee'')) l2;
                    l4 = upd_entity t (Command_e ''defend'') l3;
                    l5 = (if Connect res = Hit then
                            let l' = upd_entity t (\<lambda>e. e\<lparr>Health := Health e - Piercing res\<rparr>) l4
                            in if Health (store l' t) \<le> 0
                               then upd_entity t (Command_e ''killed'') l'
                               else upd_entity t (Command_e ''damaged'') l'
                          else upd_entity t (Command_e ''undamaged'') l4)
                in Inr ((clearCache l5)\<lparr>command := NoCommand\<rparr>))"

section \<open>The per-frame step\<close>

text \<open>
  What \<^verbatim>\<open>Think\<close> hands to the terrain widget for drawing: an entity's sprite, a pointer to a
  cell of the grid (\<^verbatim>\<open>&l.grid[i][j]\<close>), or a pointer to a local copy of a cell, given by value.
\<close>

datatype drawable =
  Upright rat rat ref
| FlatCell nat nat
| FlatCopy rat rat CellData

text \<open>
  The entity loop of \<^verbatim>\<open>Think\<close>. \<^verbatim>\<open>e.Think(dt)\<close> is not among the sources: it is the parameter
  \<open>ethink\<close>, the new value of the entity in terms of the old one.
\<close>

fun Think_entities ::
  "(entity \<Rightarrow> entity) \<Rightarrow> ref list \<Rightarrow> Level \<Rightarrow> drawable list \<Rightarrow> Level \<times> drawable list" where
  "Think_entities ethink [] l ds = (l, ds)"
| "Think_entities ethink (e # es) l ds =
     (let pbx = cell_x l e; pby = cell_y l e;
          l1 = upd_entity e ethink l;
          l2 = (if pbx \<noteq> cell_x l1 e \<or> pby \<noteq> cell_y l1 e then clearCache l1 else l1)
      in Think_entities ethink es l2
           (ds @ [Upright (fst (pos (store l2 e)) + 1 / 4) (snd (pos (store l2 e)) + 1 / 4) e]))"

definition grid_drawables :: "Grid \<Rightarrow> drawable list" where
  "grid_drawables g =
     concat (map (\<lambda>i. map (\<lambda>j. FlatCell i j) [0..<length (g ! i)]) [0..<length g])"

text \<open>
  \<^verbatim>\<open>Think\<close>. In the bounds test of the cursor cell, \<^verbatim>\<open>len(l.grid[0])\<close> is evaluated only after
  \<^verbatim>\<open>mx < len(l.grid)\<close> with \<^verbatim>\<open>mx >= 0\<close> has held, so row 0 exists whenever its length matters.
\<close>

definition Think ::
  "(entity \<Rightarrow> entity) \<Rightarrow> (int \<Rightarrow> int \<Rightarrow> rat \<times> rat) \<Rightarrow> Level \<Rightarrow> panic + (Level \<times> drawable list)" where
  "Think ethink WindowToBoard l =
     (case Think_entities ethink (entities l) l [] of (l1, ds1) \<Rightarrow>
      case maintainCommand l1 of Inl e \<Rightarrow> Inl e | Inr l2 \<Rightarrow>
      let ds2 = ds1 @ grid_drawables (grid l2);
          mx = go_int (fst (WindowToBoard (winx l2) (winy l2)));
          my = go_int (snd (WindowToBoard (winx l2) (winy l2)))
      in
      case (if mx \<ge> 0 \<and> my \<ge> 0 \<and> mx < int (length (grid l2)) \<and> my < int (length (grid l2 ! 0))
            then (case cell (grid l2) mx my of
                    Inl e \<Rightarrow> Inl e
                  | Inr c \<Rightarrow> Inr (ds2 @ [FlatCopy (of_int mx) (of_int my) (c\<lparr>highlight := MouseOver\<rparr>)]))
            else Inr ds2) of
        Inl e \<Rightarrow> Inl e
      | Inr ds3 \<Rightarrow>
          (case selected l2 of
             None \<Rightarrow> Inr (l2\<lparr>cached := True\<rparr>, ds3)
           | Some sel \<Rightarrow>
               (case cell (grid l2) (cell_x l2 sel) (cell_y l2 sel) of
                  Inl e \<Rightarrow> Inl e
                | Inr c \<Rightarrow>
                    Inr (l2\<lparr>cached := True\<rparr>,
                         ds3 @ [FlatCopy (fst (pos (store l2 sel))) (snd (pos (store l2 sel)))
                                  (c\<lparr>highlight := Reachable\<rparr>)]))))"

section \<open>The pathfinding engine\<close>

text \<open>
  The level uses \<^verbatim>\<open>algorithm.ReachableWithinLimit\<close> and \<^verbatim>\<open>algorithm.Dijkstra\<close> of package
  \<^verbatim>\<open>glop/util/algorithm\<close>, which is not among the sources. A graph is what the two methods of its
  interface return: \<^verbatim>\<open>NumVertex()\<close> and \<^verbatim>\<open>Adjacent(v)\<close>.
\<close>

record Graph =
  NumVertex_of :: "panic + int"
  Adjacent_of :: "int \<Rightarrow> panic + edge list"

text \<open>\<^verbatim>\<open>&unitGraph{ l, move_cost }\<close>: the level seen as a graph by a mover with that profile.\<close>

definition unitGraph :: "Level \<Rightarrow> (Terrain \<Rightarrow> int option) \<Rightarrow> Graph" where
  "unitGraph l move_cost =
     \<lparr>NumVertex_of = NumVertex (grid l), Adjacent_of = Adjacent l move_cost\<rparr>"

text \<open>
  The frontier of a search is a list of entries, each a cost with a payload; \<open>pop_min\<close> takes out
  the first entry of least cost.
\<close>

fun min_entry :: "rat \<times> 'a \<Rightarrow> (rat \<times> 'a) list \<Rightarrow> rat \<times> 'a" where
  "min_entry m [] = m"
| "min_entry m (e # es) = (if fst e < fst m then min_entry e es else min_entry m es)"

definition pop_min :: "(rat \<times> 'a) list \<Rightarrow> ((rat \<times> 'a) \<times> (rat \<times> 'a) list) option" where
  "pop_min q =
     (case q of
        [] \<Rightarrow> None
      | e # es \<Rightarrow> Some (min_entry e es, remove1 (min_entry e es) q))"

definition relax :: "rat \<Rightarrow> edge list \<Rightarrow> (rat \<times> int) list" where
  "relax c es = map (\<lambda>(u, w). (c + w, u)) es"

text \<open>
  Modelled from the spec: \<^verbatim>\<open>ReachableWithinLimit\<close> is missing from the sources. The spec's
  words are: ``given one or more source vertices and a budget, returns the set of all vertices
  whose shortest cost from any source is \<open>\<le>\<close> budget, inclusive of the source. Cost accumulation
  uses the same edge weights as shortest path; a vertex is added to the result the first time it
  is finalized at minimal cost''. The loop below starts from the sources at cost \<open>0\<close>, repeatedly
  takes the frontier entry of least cost, stops when that cost is over the budget, skips a vertex
  already in the result, and otherwise adds the vertex to the result and puts each neighbour on
  the frontier at the accumulated cost. A vertex outside \<open>0..<NumVertex\<close> is an index out of range.
\<close>

function rwl_loop ::
  "int \<Rightarrow> (int \<Rightarrow> panic + edge list) \<Rightarrow> rat \<Rightarrow> (rat \<times> int) list \<Rightarrow> int list \<Rightarrow>
     panic + int list" where
  "rwl_loop n adj limit q used =
     (case pop_min q of
        None \<Rightarrow> Inr used
      | Some ((c, v), q') \<Rightarrow>
          if c > limit then Inr used
          else if v \<in> set used then rwl_loop n adj limit q' used
          else if v < 0 \<or> v \<ge> n then Inl IndexOutOfRange
          else
            case adj v of
              Inl e \<Rightarrow> Inl e
            | Inr es \<Rightarrow> rwl_loop n adj limit (q' @ relax c es) (used @ [v]))"
  by pat_completeness auto
termination
proof (relation "measures [\<lambda>(n, adj, limit, q, used). card ({0..<n} - set used),
                           \<lambda>(n, adj, limit, q, used). length q]", goal_cases)
  case 1
  show ?case by simp
next
  case (2 n adj limit q used x2 x y c v)
  then obtain e es where q: "q = e # es" and y: "y = remove1 (min_entry e es) q"
    by (auto simp: pop_min_def split: list.splits)
  have "min_entry m ms \<in> set (m # ms)" for m :: "rat \<times> int" and ms
    by (induction ms arbitrary: m) auto
  then have "min_entry e es \<in> set q" using q by simp
  then have "length (remove1 (min_entry e es) q) < length q"
    by (induction q) auto
  then show ?case using y by simp
next
  case (3 n adj limit q used x2 x y c v es)
  then have "v \<in> {0..<n} - set used" by simp
  moreover have "{0..<n} - set (used @ [v]) = ({0..<n} - set used) - {v}" by auto
  ultimately have "card ({0..<n} - set (used @ [v])) < card ({0..<n} - set used)"
    using card_Diff1_less [of "{0..<n} - set used" v] by simp
  then show ?case by simp
qed

definition ReachableWithinLimit :: "Graph \<Rightarrow> int list \<Rightarrow> rat \<Rightarrow> panic + int list" where
  "ReachableWithinLimit g src limit =
     (case NumVertex_of g of
        Inl e \<Rightarrow> Inl e
      | Inr n \<Rightarrow> rwl_loop n (Adjacent_of g) limit (map (\<lambda>v. (0, v)) src) [])"

text \<open>
  Modelled from the spec: \<^verbatim>\<open>Dijkstra\<close> is missing from the sources. The spec's words are: ``given
  one or more source vertices and one or more target vertices, returns the minimum total cost and
  the vertex sequence achieving it (classic non-negative-weight shortest path; ties broken by
  traversal/discovery order). Returns an empty path and infinite cost if no target is
  reachable''. The result \<^const>\<open>None\<close> is that last case; \<open>Some (cost, path)\<close> is a finite cost
  with its path. A frontier entry carries its vertex and, in reverse, the vertices before it.
\<close>

function dijkstra_loop ::
  "int \<Rightarrow> (int \<Rightarrow> panic + edge list) \<Rightarrow> int list \<Rightarrow> (rat \<times> int \<times> int list) list \<Rightarrow> int list \<Rightarrow>
     panic + (rat \<times> int list) option" where
  "dijkstra_loop n adj dst q used =
     (case pop_min q of
        None \<Rightarrow> Inr None
      | Some ((c, v, p), q') \<Rightarrow>
          if v \<in> set used then dijkstra_loop n adj dst q' used
          else if v \<in> set dst then Inr (Some (c, rev (v # p)))
          else if v < 0 \<or> v \<ge> n then Inl IndexOutOfRange
          else
            case adj v of
              Inl e \<Rightarrow> Inl e
            | Inr es \<Rightarrow>
                dijkstra_loop n adj dst (q' @ map (\<lambda>(u, w). (c + w, u, v # p)) es) (used @ [v]))"
  by pat_completeness auto
termination
proof (relation "measures [\<lambda>(n, adj, dst, q, used). card ({0..<n} - set used),
                           \<lambda>(n, adj, dst, q, used). length q]", goal_cases)
  case 1
  show ?case by simp
next
  case (2 n adj dst q used x2 x y c z v p)
  then obtain e es where q: "q = e # es" and y: "y = remove1 (min_entry e es) q"
    by (auto simp: pop_min_def split: list.splits)
  have "min_entry m ms \<in> set (m # ms)" for m :: "rat \<times> int \<times> int list" and ms
    by (induction ms arbitrary: m) auto
  then have "min_entry e es \<in> set q" using q by simp
  then have "length (remove1 (min_entry e es) q) < length q"
    by (induction q) auto
  then show ?case using y by simp
next
  case (3 n adj dst q used x2 x y c z v p es)
  then have "v \<in> {0..<n} - set used" by simp
  moreover have "{0..<n} - set (used @ [v]) = ({0..<n} - set used) - {v}" by auto
  ultimately have "card ({0..<n} - set (used @ [v])) < card ({0..<n} - set used)"
    using card_Diff1_less [of "{0..<n} - set used" v] by simp
  then show ?case by simp
qed

definition Dijkstra :: "Graph \<Rightarrow> int list \<Rightarrow> int list \<Rightarrow> panic + (rat \<times> int list) option" where
  "Dijkstra g src dst =
     (case NumVertex_of g of
        Inl e \<Rightarrow> Inl e
      | Inr n \<Rightarrow> dijkstra_loop n (Adjacent_of g) dst (map (\<lambda>v. (0, v, [])) src) [])"

section \<open>The movement command\<close>

definition PrepMove :: "Level \<Rightarrow> panic + Level" where
  "PrepMove l =
     (case selected l of None \<Rightarrow> Inr l | Some sel \<Rightarrow>
      let bx = cell_x l sel; by = cell_y l sel;
          graph = unitGraph l (Move_cost (store l sel))
      in case ReachableWithinLimit graph [toVertex (grid l) bx by] (of_int (AP (store l sel))) of
           Inl e \<Rightarrow> Inl e
         | Inr r \<Rightarrow>
             let l1 = l\<lparr>reachable := r\<rparr>
             in if length (reachable l1) = 0 then Inr l1
                else Inr (clearCache (l1\<lparr>command := Move\<rparr>)))"

text \<open>The final loop of \<^verbatim>\<open>DoMove\<close>: the cells of the vertices of the path.\<close>

fun path_cells :: "Grid \<Rightarrow> int list \<Rightarrow> panic + (int \<times> int) list" where
  "path_cells g [] = Inr []"
| "path_cells g (v # vs) =
     (case fromVertex g v of Inl e \<Rightarrow> Inl e | Inr xy \<Rightarrow>
      case path_cells g vs of Inl e \<Rightarrow> Inl e | Inr cs \<Rightarrow> Inr (xy # cs))"

text \<open>
  \<^verbatim>\<open>DoMove\<close>; \<open>vs\<close> is the local \<^verbatim>\<open>path\<close>. The test is \<^verbatim>\<open>len(path) == 0 || int(ap) > l.selected.AP\<close>: the cost is truncated
  before it is compared.
\<close>

definition DoMove :: "Level \<Rightarrow> int \<Rightarrow> int \<Rightarrow> panic + Level" where
  "DoMove l click_x click_y =
     (case selected l of None \<Rightarrow> Inr l | Some sel \<Rightarrow>
      let start = toVertex (grid l) (cell_x l sel) (cell_y l sel);
          dst = toVertex (grid l) click_x click_y;
          graph = unitGraph l (Move_cost (store l sel))
      in case Dijkstra graph [start] [dst] of
           Inl e \<Rightarrow> Inl e
         | Inr None \<Rightarrow> Inr l
         | Inr (Some (ap, vs)) \<Rightarrow>
             if length vs = 0 \<or> go_int ap > AP (store l sel) then Inr l
             else
               case path_cells (grid l) (tl vs) of
                 Inl e \<Rightarrow> Inl e
               | Inr cs \<Rightarrow>
                   Inr ((clearCache (upd_entity sel (\<lambda>e. e\<lparr>path := cs\<rparr>) (l\<lparr>reachable := []\<rparr>)))
                          \<lparr>command := NoCommand\<rparr>))"

section \<open>Input events\<close>

text \<open>
  The loop of \<^verbatim>\<open>HandleEventGroup\<close> that finds the entity nearest to the click, in the maximum
  norm; the running distance starts at \<open>+\<infinity>\<close>, here \<^const>\<open>None\<close>.
\<close>

fun nearest ::
  "Level \<Rightarrow> rat \<times> rat \<Rightarrow> ref list \<Rightarrow> ref option \<times> rat option \<Rightarrow> ref option \<times> rat option" where
  "nearest l click [] acc = acc"
| "nearest l click (r # rs) (ent, dist') =
     (let dx = fst click - (fst (pos (store l r)) + 1 / 2); dx = (if dx < 0 then - dx else dx);
          dy = snd click - (snd (pos (store l r)) + 1 / 2); dy = (if dy < 0 then - dy else dy);
          d = max dx dy
      in if (case dist' of None \<Rightarrow> True | Some m \<Rightarrow> d < m)
         then nearest l click rs (Some r, Some d)
         else nearest l click rs (ent, dist'))"

definition closer :: "rat option \<Rightarrow> rat \<Rightarrow> bool" where
  "closer dist' bound = (case dist' of None \<Rightarrow> False | Some d \<Rightarrow> d < bound)"

text \<open>
  \<^verbatim>\<open>HandleEventGroup\<close>: \<open>cursor\<close> is the cursor point read from the input system, \<open>press\<close> says
  whether the event group holds a press of the mouse button.
\<close>

definition HandleEventGroup ::
  "(Weapon \<Rightarrow> entity \<Rightarrow> entity \<Rightarrow> Resolution) \<Rightarrow> (int \<Rightarrow> int \<Rightarrow> rat \<times> rat) \<Rightarrow> Level \<Rightarrow>
     int \<times> int \<Rightarrow> bool \<Rightarrow> panic + Level" where
  "HandleEventGroup Damage WindowToBoard l cursor press =
     (let l0 = l\<lparr>winx := fst cursor, winy := snd cursor\<rparr>;
          b = WindowToBoard (fst cursor) (snd cursor)
      in if \<not> press then Inr l0
         else
           case nearest l0 b (entities l0) (None, None) of (ent, dist') \<Rightarrow>
           if selected l0 = None \<and> closer dist' 3 then
             Inr ((clearCache (l0\<lparr>selected := ent\<rparr>))\<lparr>command := NoCommand\<rparr>)
           else
             let target = (if selected l0 \<noteq> None \<and> closer dist' (1 / 2) then ent else None)
             in case (case command l0 of
                        Move \<Rightarrow>
                          (if target = None then
                             (case DoMove l0 (go_int (fst b)) (go_int (snd b)) of
                                Inl e \<Rightarrow> Inl e | Inr l1 \<Rightarrow> Inr (l1, target))
                           else Inr (l0, target))
                      | Attack \<Rightarrow>
                          (if target \<noteq> None then
                             (case DoAttack Damage l0 target of
                                Inl e \<Rightarrow> Inl e | Inr l1 \<Rightarrow> Inr (l1, None))
                           else Inr (l0, target))
                      | NoCommand \<Rightarrow> Inr (l0, target)) of
                  Inl e \<Rightarrow> Inl e
                | Inr (l1, target') \<Rightarrow>
                    let l2 = (case target' of None \<Rightarrow> l1 | Some t \<Rightarrow> l1\<lparr>selected := Some t\<rparr>)
                    in Inr ((clearCache l2)\<lparr>command := NoCommand\<rparr>))"

section \<open>Loading a level\<close>

text \<open>
  The decoded level document: \<^verbatim>\<open>levelData\<close>, each \<^verbatim>\<open>levelDataCell\<close> given by its \<^verbatim>\<open>Terrain\<close>
  label.
\<close>

record levelData =
  Image :: string
  Cells :: "string list list"

text \<open>The \<^verbatim>\<open>switch\<close> of \<^verbatim>\<open>LoadLevel\<close> on a label.\<close>

definition resolve :: "string \<Rightarrow> panic + Terrain" where
  "resolve label =
     (if label = ''grass'' then Inr Grass
      else if label = ''brush'' then Inr Brush
      else if label = ''water'' then Inr Water
      else if label = ''dirt'' then Inr Dirt
      else Inl (Panic ''WTF''))"

text \<open>The loop over \<open>j\<close> for one row of the grid: it reads \<^verbatim>\<open>ldc.Level.Cells[i][j]\<close>.\<close>

fun load_cells :: "string list \<Rightarrow> nat list \<Rightarrow> panic + CellData list" where
  "load_cells row [] = Inr []"
| "load_cells row (j # js) =
     (if j < length row then
        case resolve (row ! j) of
          Inl e \<Rightarrow> Inl e
        | Inr t \<Rightarrow>
            (case load_cells row js of
               Inl e \<Rightarrow> Inl e
             | Inr cs \<Rightarrow> Inr (\<lparr>Terrain = t, highlight = None_hl\<rparr> # cs))
      else Inl IndexOutOfRange)"

text \<open>The loop over \<open>i\<close>: every row of the grid has \<open>dy\<close> cells.\<close>

fun load_rows :: "string list list \<Rightarrow> nat \<Rightarrow> panic + Grid" where
  "load_rows [] dy = Inr []"
| "load_rows (row # rows) dy =
     (case load_cells row [0..<dy] of
        Inl e \<Rightarrow> Inl e
      | Inr cs \<Rightarrow>
          (case load_rows rows dy of Inl e \<Rightarrow> Inl e | Inr g \<Rightarrow> Inr (cs # g)))"

text \<open>
  \<^verbatim>\<open>LoadLevel\<close>. Its inputs are what the outside world gives it: \<open>file\<close> is the outcome of
  opening and reading \<^verbatim>\<open>data.json\<close> (an error, or the document as \<^verbatim>\<open>json.Unmarshal\<close> left it
  in \<^verbatim>\<open>ldc\<close>; the error \<^verbatim>\<open>json.Unmarshal\<close> returns is dropped by the code, and a document it
  cannot parse leaves \<^verbatim>\<open>ldc\<close> empty), \<open>MakeTerrain\<close> is the outcome of \<^verbatim>\<open>gui.MakeTerrain\<close> for an
  image name (\<^const>\<open>None\<close> is success) and \<open>st\<close> is the memory entities will live in. The result is
  a panic, or the pair the function returns: an error, or the level.
\<close>

definition LoadLevel ::
  "string + levelData \<Rightarrow> (string \<Rightarrow> string option) \<Rightarrow> (ref \<Rightarrow> entity) \<Rightarrow> panic + (string + Level)" where
  "LoadLevel file MakeTerrain st =
     (case file of
        Inl err \<Rightarrow> Inr (Inl err)
      | Inr ldc \<Rightarrow>
          (case Cells ldc of
             [] \<Rightarrow> Inl IndexOutOfRange
           | row0 # _ \<Rightarrow>
               (case load_rows (Cells ldc) (length row0) of
                  Inl e \<Rightarrow> Inl e
                | Inr g \<Rightarrow>
                    (case MakeTerrain (Image ldc) of
                       Some err \<Rightarrow> Inr (Inl err)
                     | None \<Rightarrow>
                         Inr (Inr \<lparr>grid = g, cached = False, entities = [], selected = None,
                                   winx = 0, winy = 0, command = NoCommand, reachable = [],
                                   in_range = [], store = st\<rparr>)))))"

section \<open>The states a level can be in\<close>

text \<open>
  A level starts as \<^verbatim>\<open>LoadLevel\<close> returns it and changes by the functions above. Code outside the
  sources fills in and advances the entities (\<^verbatim>\<open>Round\<close>, \<^verbatim>\<open>Setup\<close>, the creation of units); it
  is the rule \<open>entities_edited\<close>.
\<close>

inductive reachable_level :: "Level \<Rightarrow> bool" where
  loaded: "LoadLevel file MakeTerrain st = Inr (Inr l) \<Longrightarrow> reachable_level l"
| entities_edited: "reachable_level l \<Longrightarrow> reachable_level (l\<lparr>entities := es, store := st\<rparr>)"
| thought: "reachable_level l \<Longrightarrow> Think ethink WindowToBoard l = Inr (l', ds) \<Longrightarrow> reachable_level l'"
| move_prepared: "reachable_level l \<Longrightarrow> PrepMove l = Inr l' \<Longrightarrow> reachable_level l'"
| attack_prepared: "reachable_level l \<Longrightarrow> PrepAttack l = Inr l' \<Longrightarrow> reachable_level l'"
| moved: "reachable_level l \<Longrightarrow> DoMove l click_x click_y = Inr l' \<Longrightarrow> reachable_level l'"
| attacked: "reachable_level l \<Longrightarrow> DoAttack Damage l target = Inr l' \<Longrightarrow> reachable_level l'"
| event_handled:
    "reachable_level l \<Longrightarrow> HandleEventGroup Damage WindowToBoard l cursor press = Inr l' \<Longrightarrow>
     reachable_level l'"

section \<open>The basic attack action (package game)\<close>

text \<open>
  \<^verbatim>\<open>ActionBasicAttack\<close> belongs to package \<^verbatim>\<open>game\<close>, whose \<^verbatim>\<open>Entity\<close> and \<^verbatim>\<open>Level\<close> are not among
  the sources. An entity is given by what the action reads through its methods (\<^verbatim>\<open>Pos\<close> as its
  cell \<^verbatim>\<open>(Pos.Xi(), Pos.Yi())\<close>, \<^verbatim>\<open>CurAp()\<close>, \<^verbatim>\<open>CurAttack()\<close>, \<^verbatim>\<open>CurDefense()\<close>, \<^verbatim>\<open>CurHealth()\<close>), the
  commands sent to its sprite \<^verbatim>\<open>s\<close>, oldest first, and the point it faces. The level is the
  memory holding the entities and, for the cell at each position, its highlight; \<^verbatim>\<open>highlight |= h\<close>
  shows that a highlight of this package is a set of bits.
\<close>

record Entity =
  Pos :: "int \<times> int"
  CurAp :: int
  CurAttack :: int
  CurDefense :: int
  CurHealth :: int
  sprite :: "string list"
  Facing :: "(int \<times> int) option"

record GameLevel =
  Ents :: "ref \<Rightarrow> Entity"
  cell_highlight :: "int \<times> int \<Rightarrow> int"

definition upd_Entity :: "ref \<Rightarrow> (Entity \<Rightarrow> Entity) \<Rightarrow> GameLevel \<Rightarrow> GameLevel" where
  "upd_Entity r f lv = lv\<lparr>Ents := (Ents lv)(r := f (Ents lv r))\<rparr>"

definition Command_s :: "string \<Rightarrow> Entity \<Rightarrow> Entity" where
  "Command_s c e = e\<lparr>sprite := sprite e @ [c]\<rparr>"

definition turnToFace_g :: "int \<times> int \<Rightarrow> Entity \<Rightarrow> Entity" where
  "turnToFace_g p e = e\<lparr>Facing := Some p\<rparr>"

text \<open>Modelled from the spec: \<^verbatim>\<open>SpendAp\<close> is missing from the sources; ``AP spend'' takes the
  cost off the entity's action points.\<close>

definition SpendAp :: "int \<Rightarrow> Entity \<Rightarrow> Entity" where
  "SpendAp n e = e\<lparr>CurAp := CurAp e - n\<rparr>"

text \<open>Modelled from the spec: \<^verbatim>\<open>DoDamage\<close> is missing from the sources; ``damage = 2, health
  decreases by 2''.\<close>

definition DoDamage :: "int \<Rightarrow> Entity \<Rightarrow> Entity" where
  "DoDamage n e = e\<lparr>CurHealth := CurHealth e - n\<rparr>"

text \<open>Modelled from the spec: \<^verbatim>\<open>Level.clearCache(h)\<close> of package \<^verbatim>\<open>game\<close> is missing from the
  sources; \<^verbatim>\<open>Cancel\<close> ``clears any derived highlight associated with this action'': the bits of
  \<open>h\<close> are taken off the highlight of every cell.\<close>

definition clearCache_h :: "int \<Rightarrow> GameLevel \<Rightarrow> GameLevel" where
  "clearCache_h h lv = lv\<lparr>cell_highlight := (\<lambda>p. cell_highlight lv p AND NOT h)\<rparr>"

record ActionBasicAttack =
  Ent :: ref
  Cost :: int
  Power :: int
  Range_a :: int
  Melee :: int
  targets :: "ref list"
  mark :: "ref option"

datatype ActionCommit = NoAction | StandardAction

datatype MaintenanceStatus = InProgress | Complete

text \<open>\<^verbatim>\<open>a.Level.GetCellAtPos(target.Pos).highlight |= Attackable\<close>, and the loop of \<^verbatim>\<open>Prep\<close> doing
  it for each target. The constant \<^verbatim>\<open>Attackable\<close> of this package is the parameter \<open>attackable\<close>.\<close>

definition mark_cell :: "int \<Rightarrow> ref \<Rightarrow> GameLevel \<Rightarrow> GameLevel" where
  "mark_cell attackable t lv =
     lv\<lparr>cell_highlight :=
          (cell_highlight lv)(Pos (Ents lv t) := cell_highlight lv (Pos (Ents lv t)) OR attackable)\<rparr>"

fun Prep_loop :: "int \<Rightarrow> ref list \<Rightarrow> GameLevel \<Rightarrow> GameLevel" where
  "Prep_loop attackable [] lv = lv"
| "Prep_loop attackable (t # ts) lv = Prep_loop attackable ts (mark_cell attackable t lv)"

text \<open>\<^verbatim>\<open>Prep\<close>. \<^verbatim>\<open>getEntsWithinRange\<close> is not among the sources and is a parameter. The action and
  the level it points to are both passed in and returned.\<close>

definition Prep ::
  "int \<Rightarrow> (ref \<Rightarrow> int \<Rightarrow> GameLevel \<Rightarrow> ref list) \<Rightarrow> ActionBasicAttack \<Rightarrow> GameLevel \<Rightarrow>
     bool \<times> ActionBasicAttack \<times> GameLevel" where
  "Prep attackable getEntsWithinRange a lv =
     (if CurAp (Ents lv (Ent a)) < Cost a then (False, a, lv)
      else
        let a1 = a\<lparr>targets := getEntsWithinRange (Ent a) (Range_a a) lv\<rparr>
        in if length (targets a1) = 0 then (False, a1, lv)
           else (True, a1, Prep_loop attackable (targets a1) lv))"

definition Cancel :: "int \<Rightarrow> ActionBasicAttack \<Rightarrow> GameLevel \<Rightarrow> ActionBasicAttack \<times> GameLevel" where
  "Cancel attackable a lv = (a\<lparr>mark := None, targets := []\<rparr>, clearCache_h attackable lv)"

fun MouseClick_loop :: "GameLevel \<Rightarrow> int \<Rightarrow> int \<Rightarrow> ref list \<Rightarrow> ref option" where
  "MouseClick_loop lv bx by [] = None"
| "MouseClick_loop lv bx by (t # ts) =
     (if bx = fst (Pos (Ents lv t)) \<and> by = snd (Pos (Ents lv t)) then Some t
      else MouseClick_loop lv bx by ts)"

definition MouseClick ::
  "rat \<Rightarrow> rat \<Rightarrow> ActionBasicAttack \<Rightarrow> GameLevel \<Rightarrow> ActionCommit \<times> ActionBasicAttack" where
  "MouseClick bx by a lv =
     (case MouseClick_loop lv (go_int bx) (go_int by) (targets a) of
        Some t \<Rightarrow> (StandardAction, a\<lparr>mark := Some t\<rparr>)
      | None \<Rightarrow> (NoAction, a))"

text \<open>The randomized offset of \<^verbatim>\<open>Maintain\<close>, \<^verbatim>\<open>(Dice("5d5") - 2) / 3 - 4\<close>, for the value the dice
  gave; the division is Go's, truncating toward zero.\<close>

definition offset :: "int \<Rightarrow> int" where
  "offset dice = (dice - 2) sdiv 3 - 4"

text \<open>
  \<^verbatim>\<open>Maintain\<close>. \<^verbatim>\<open>Dice\<close> is not among the sources: the value of \<^verbatim>\<open>Dice("5d5")\<close> is the parameter
  \<open>dice\<close>, the sum of five dice with faces 1 to 5, hence from 5 to 25.
\<close>

definition Maintain ::
  "int \<Rightarrow> int \<Rightarrow> ActionBasicAttack \<Rightarrow> GameLevel \<Rightarrow> MaintenanceStatus \<times> ActionBasicAttack \<times> GameLevel" where
  "Maintain attackable dice a lv =
     (case mark a of
        None \<Rightarrow> (Complete, Cancel attackable a lv)
      | Some m \<Rightarrow>
          if CurAp (Ents lv (Ent a)) < Cost a then (Complete, Cancel attackable a lv)
          else
            let lv1 = upd_Entity (Ent a) (SpendAp (Cost a)) lv;
                lv2 = upd_Entity (Ent a)
                        (Command_s (if Melee a \<noteq> 0 then ''melee'' else ''ranged'')) lv1;
                attack = Power a + CurAttack (Ents lv2 (Ent a)) + offset dice;
                defense = CurDefense (Ents lv2 m);
                lv3 = upd_Entity m (Command_s ''defend'') lv2;
                lv4 = (if attack \<le> defense then upd_Entity m (Command_s ''undamaged'') lv3
                       else
                         let lv' = upd_Entity m (DoDamage (attack - defense)) lv3
                         in if CurHealth (Ents lv' m) \<le> 0
                            then upd_Entity m (Command_s ''killed'') lv'
                            else upd_Entity m (Command_s ''damaged'') lv');
                lv5 = upd_Entity (Ent a) (turnToFace_g (Pos (Ents lv4 m))) lv4
            in (Complete, Cancel attackable a lv5))"

section \<open>Concrete levels and actions\<close>

text \<open>A land unit: grass costs 1, brush 2, dirt 1; water is impassable.\<close>

definition ex_profile :: "Terrain \<Rightarrow> int option" where
  "ex_profile = [Grass \<mapsto> 1, Brush \<mapsto> 2, Dirt \<mapsto> 1]"

definition ex_entity :: "rat \<times> rat \<Rightarrow> int \<Rightarrow> entity" where
  "ex_entity p ap =
     \<lparr>pos = p, AP = ap, Health = 5, Weapons = [\<lparr>Cost_w = 2, Reach_w = 1\<rparr>],
      Move_cost = ex_profile, path = [], s = [], facing = None\<rparr>"

text \<open>Three by three cells of grass, a selected unit with 3 AP at \<open>(0, 0)\<close> and another unit at
  \<open>(2, 2)\<close>, out of the reach of its weapon.\<close>

definition ex_level :: Level where
  "ex_level =
     \<lparr>grid = replicate 3 (replicate 3 \<lparr>Terrain = Grass, highlight = None_hl\<rparr>),
      cached = False, entities = [0, 1], selected = Some 0, winx = 0, winy = 0,
      command = Attack, reachable = [], in_range = [],
      store = (\<lambda>r. if r = 0 then ex_entity (0, 0) 3 else ex_entity (2, 2) 1)\<rparr>"

definition ex_Damage :: "Weapon \<Rightarrow> entity \<Rightarrow> entity \<Rightarrow> Resolution" where
  "ex_Damage w a d = \<lparr>Connect = Hit, Piercing = 2\<rparr>"

text \<open>The commands the sprite of entity \<open>r\<close> received between the levels \<open>lv\<close> and \<open>lv'\<close>.\<close>

definition signals_sent :: "GameLevel \<Rightarrow> GameLevel \<Rightarrow> ref \<Rightarrow> string list" where
  "signals_sent lv lv' r = drop (length (sprite (Ents lv r))) (sprite (Ents lv' r))"

text \<open>An attacker with 4 AP and attack 1 at \<open>(0, 0)\<close> (address 0), a defender with defense 3 and
  health 2 at \<open>(1, 0)\<close> (address 1), and an attack of cost 2 and power 5 aimed at the defender.\<close>

definition ex_Entity :: "int \<times> int \<Rightarrow> int \<Rightarrow> int \<Rightarrow> Entity" where
  "ex_Entity p att def =
     \<lparr>Pos = p, CurAp = 4, CurAttack = att, CurDefense = def, CurHealth = 2, sprite = [],
      Facing = None\<rparr>"

definition ex_GameLevel :: GameLevel where
  "ex_GameLevel =
     \<lparr>Ents = (\<lambda>r. if r = 0 then ex_Entity (0, 0) 1 0 else ex_Entity (1, 0) 0 3),
      cell_highlight = (\<lambda>p. 0)\<rparr>"

definition ex_action :: ActionBasicAttack where
  "ex_action = \<lparr>Ent = 0, Cost = 2, Power = 5, Range_a = 1, Melee = 1, targets = [1], mark = Some 1\<rparr>"

text \<open>The level above with no command and a candidate set left by an earlier preparation.\<close>

definition ex_stale :: Level where
  "ex_stale = ex_level\<lparr>command := NoCommand, in_range := [4]\<rparr>"

text \<open>Level documents: a well-formed one, one with a label the loader does not know, and one
  whose second row is longer than its first and ends in such a label.\<close>

definition ex_doc :: levelData where
  "ex_doc = \<lparr>Image = ''bg.png'', Cells = [[''grass'', ''brush''], [''water'', ''dirt'']]\<rparr>"

definition ex_bad_label :: levelData where
  "ex_bad_label = \<lparr>Image = ''bg.png'', Cells = [[''grass'', ''lava'']]\<rparr>"

definition ex_ragged :: levelData where
  "ex_ragged = \<lparr>Image = ''bg.png'', Cells = [[''grass''], [''grass'', ''lava'']]\<rparr>"

definition ex_MakeTerrain :: "string \<Rightarrow> string option" where
  "ex_MakeTerrain name = None"

definition ex_store :: "ref \<Rightarrow> entity" where
  "ex_store r = ex_entity (0, 0) 0"

definition ex_no_targets :: "ref \<Rightarrow> int \<Rightarrow> GameLevel \<Rightarrow> ref list" where
  "ex_no_targets e r lv = []"

definition ex_one_target :: "ref \<Rightarrow> int \<Rightarrow> GameLevel \<Rightarrow> ref list" where
  "ex_one_target e r lv = [1]"

section \<open>Properties of the highlight overlay\<close>

definition all_none :: "Grid \<Rightarrow> bool" where
  "all_none g = (\<forall>row \<in> set g. \<forall>c \<in> set row. highlight c = None_hl)"

definition no_mouseover :: "Grid \<Rightarrow> bool" where
  "no_mouseover g = (\<forall>row \<in> set g. \<forall>c \<in> set row. highlight c \<noteq> MouseOver)"

text \<open>While the cache flag is unset, no cell holds a highlight.\<close>

definition cache_inv :: "Level \<Rightarrow> bool" where
  "cache_inv l = (cached l \<or> all_none (grid l))"

text \<open>The step \<open>ethink\<close> of an entity takes it to another cell.\<close>

definition moves :: "(entity \<Rightarrow> entity) \<Rightarrow> entity \<Rightarrow> bool" where
  "moves ethink e =
     (go_int (fst (pos (ethink e))) \<noteq> go_int (fst (pos e)) \<or>
      go_int (snd (pos (ethink e))) \<noteq> go_int (snd (pos e)))"

definition overlay_inv :: "Level \<Rightarrow> bool" where
  "overlay_inv l = (no_mouseover (grid l) \<and> cache_inv l)"

text \<open>
  The level loaded from \<open>ex_doc\<close>; the same with two units next to each other, the first with 3
  AP; a cursor that is always over the cell \<open>(0, 1)\<close>; and a step that takes every entity one cell
  further along \<open>y\<close>.
\<close>

definition ex_loaded :: Level where
  "ex_loaded =
     \<lparr>grid = [[\<lparr>Terrain = Grass, highlight = None_hl\<rparr>, \<lparr>Terrain = Brush, highlight = None_hl\<rparr>],
              [\<lparr>Terrain = Water, highlight = None_hl\<rparr>, \<lparr>Terrain = Dirt, highlight = None_hl\<rparr>]],
      cached = False, entities = [], selected = None, winx = 0, winy = 0,
      command = NoCommand, reachable = [], in_range = [], store = ex_store\<rparr>"

definition ex_units :: "ref \<Rightarrow> entity" where
  "ex_units r = (if r = 0 then ex_entity (0, 0) 3 else ex_entity (1, 0) 1)"

definition ex_populated :: Level where
  "ex_populated = ex_loaded\<lparr>entities := [0, 1], store := ex_units\<rparr>"

definition ex_WindowToBoard :: "int \<Rightarrow> int \<Rightarrow> rat \<times> rat" where
  "ex_WindowToBoard x y = (1 / 2, 3 / 2)"

definition ex_step :: "entity \<Rightarrow> entity" where
  "ex_step e = e\<lparr>pos := (fst (pos e), snd (pos e) + 1)\<rparr>"

definition ex_stay :: "entity \<Rightarrow> entity" where
  "ex_stay e = e"

text \<open>The populated level after a click has selected the first unit, after \<^verbatim>\<open>PrepAttack\<close>, and
  after a \<^verbatim>\<open>Think\<close> step has painted the cell of the second unit.\<close>

definition ex_selected :: Level where
  "ex_selected = ex_populated\<lparr>selected := Some 0\<rparr>"

definition ex_attacking :: Level where
  "ex_attacking = ex_selected\<lparr>command := Attack, in_range := [1]\<rparr>"

definition ex_painted :: Level where
  "ex_painted =
     ex_attacking
       \<lparr>grid := [[\<lparr>Terrain = Grass, highlight = None_hl\<rparr>, \<lparr>Terrain = Brush, highlight = None_hl\<rparr>],
                 [\<lparr>Terrain = Water, highlight = Attackable\<rparr>, \<lparr>Terrain = Dirt, highlight = None_hl\<rparr>]],
        cached := True\<rparr>"

section \<open>Terms in which the grid graph is described\<close>

text \<open>A grid as \<^verbatim>\<open>LoadLevel\<close> builds it: at least one row, all rows as long as the first.\<close>

definition wf_grid :: "Grid \<Rightarrow> bool" where
  "wf_grid g = (g \<noteq> [] \<and> (\<forall>row \<in> set g. length row = length (g ! 0)))"

definition in_grid :: "Grid \<Rightarrow> int \<Rightarrow> int \<Rightarrow> bool" where
  "in_grid g x y = (0 \<le> x \<and> x < int (length g) \<and> 0 \<le> y \<and> y < int (length (g ! 0)))"

definition terrain_at :: "Grid \<Rightarrow> int \<Rightarrow> int \<Rightarrow> Terrain" where
  "terrain_at g x y = Terrain (g ! nat x ! nat y)"

text \<open>
  The weight the spec gives to the step from \<open>(x, y)\<close> to \<open>(x + dx, y + dy)\<close>: the cost of the
  destination for an orthogonal step; for a diagonal step the larger of the average of the two
  corner costs and the cost of the destination; none when a terrain involved is impassable.
\<close>

definition step_cost :: "Grid \<Rightarrow> (Terrain \<Rightarrow> int option) \<Rightarrow> int \<Rightarrow> int \<Rightarrow> int \<Rightarrow> int \<Rightarrow> rat option" where
  "step_cost g mc x y dx dy =
     (case mc (terrain_at g (x + dx) (y + dy)) of
        None \<Rightarrow> None
      | Some c \<Rightarrow>
          if dx = 0 \<or> dy = 0 then Some (of_int c)
          else
            (case mc (terrain_at g x (y + dy)) of
               None \<Rightarrow> None
             | Some a \<Rightarrow>
                 (case mc (terrain_at g (x + dx) y) of
                    None \<Rightarrow> None
                  | Some b \<Rightarrow> Some (max (of_int (a + b) / 2) (of_int c)))))"

text \<open>The edge, if any, that one round of the loops of \<^verbatim>\<open>Adjacent\<close> contributes.\<close>

definition edge_at :: "Level \<Rightarrow> (Terrain \<Rightarrow> int option) \<Rightarrow> int \<Rightarrow> int \<Rightarrow> int \<Rightarrow> int \<Rightarrow> edge option" where
  "edge_at l mc x y dx dy =
     (if (dx = 0 \<and> dy = 0) \<or> \<not> in_grid (grid l) (x + dx) (y + dy) \<or> occupied l (x + dx) (y + dy)
      then None
      else
        (case step_cost (grid l) mc x y dx dy of
           None \<Rightarrow> None
         | Some w \<Rightarrow> if w < 0 then None else Some (toVertex (grid l) (x + dx) (y + dy), w)))"

section \<open>Terms in which an attack of the level is described\<close>

text \<open>The commands the sprite of entity \<open>r\<close> received between the levels \<open>l\<close> and \<open>l'\<close>.\<close>

definition commands_sent :: "Level \<Rightarrow> Level \<Rightarrow> ref \<Rightarrow> string list" where
  "commands_sent l l' r = drop (length (s (store l r))) (s (store l' r))"

text \<open>The level as \<^verbatim>\<open>DoAttack\<close> has it when it calls \<^verbatim>\<open>weapon.Damage\<close>: the cost is paid.\<close>

definition paid :: "Level \<Rightarrow> ref \<Rightarrow> Weapon \<Rightarrow> Level" where
  "paid l sel weapon = upd_entity sel (\<lambda>e. e\<lparr>AP := AP e - Cost_w weapon\<rparr>) l"

text \<open>A weapon that misses and one that hits for 7.\<close>

definition ex_Damage_miss :: "Weapon \<Rightarrow> entity \<Rightarrow> entity \<Rightarrow> Resolution" where
  "ex_Damage_miss w a d = \<lparr>Connect = Miss, Piercing = 7\<rparr>"

definition ex_Damage_kill :: "Weapon \<Rightarrow> entity \<Rightarrow> entity \<Rightarrow> Resolution" where
  "ex_Damage_kill w a d = \<lparr>Connect = Hit, Piercing = 7\<rparr>"

text \<open>A background that cannot be loaded.\<close>

definition ex_no_background :: "string \<Rightarrow> string option" where
  "ex_no_background name = Some ''cannot load the background''"

text \<open>
  Two by two cells, grass except for brush at \<open>(0, 1)\<close>, and one selected unit with 1 AP at
  \<open>(0, 0)\<close> that has been told to move. The diagonal step to \<open>(1, 1)\<close> passes the corners
  \<open>(0, 1)\<close>, of cost 2, and \<open>(1, 0)\<close>, of cost 1.
\<close>

definition ex_field :: Level where
  "ex_field =
     \<lparr>grid = [[\<lparr>Terrain = Grass, highlight = None_hl\<rparr>, \<lparr>Terrain = Brush, highlight = None_hl\<rparr>],
              [\<lparr>Terrain = Grass, highlight = None_hl\<rparr>, \<lparr>Terrain = Grass, highlight = None_hl\<rparr>]],
      cached = False, entities = [0], selected = Some 0, winx = 0, winy = 0,
      command = Move, reachable = [0, 2], in_range = [],
      store = (\<lambda>r. ex_entity (0, 0) 1)\<rparr>"

section \<open>An attack on a target beyond reach\<close>

lemma cell_xy_upd_AP [simp]:
  "cell_x (upd_entity r (\<lambda>e. e\<lparr>AP := f e\<rparr>) l) q = cell_x l q"
  "cell_y (upd_entity r (\<lambda>e. e\<lparr>AP := f e\<rparr>) l) q = cell_y l q"
  by (simp_all add: cell_x_def cell_y_def upd_entity_def)

text \<open>
  Claim C9. When an entity is selected, its AP covers the cost of its weapon and the target is
  farther away than the weapon reaches, \<^verbatim>\<open>DoAttack\<close> returns the level in which the selected
  entity has paid the cost and nothing else has changed: the target keeps its health, no entity's
  sprite receives a command, and the command, the grid and the cache flag are as before.
\<close>

theorem DoAttack_beyond_reach:
  assumes "selected l = Some sel"
    and "Weapons (store l sel) = weapon # ws"
    and "Cost_w weapon \<le> AP (store l sel)"
    and "Reach_w weapon < maxNormi (cell_x l t) (cell_y l t) (cell_x l sel) (cell_y l sel)"
  shows "DoAttack Damage l (Some t) = Inr (upd_entity sel (\<lambda>e. e\<lparr>AP := AP e - Cost_w weapon\<rparr>) l) \<and>
         AP (store (upd_entity sel (\<lambda>e. e\<lparr>AP := AP e - Cost_w weapon\<rparr>) l) sel)
           = AP (store l sel) - Cost_w weapon \<and>
         Health (store (upd_entity sel (\<lambda>e. e\<lparr>AP := AP e - Cost_w weapon\<rparr>) l) t)
           = Health (store l t) \<and>
         (\<forall>r. s (store (upd_entity sel (\<lambda>e. e\<lparr>AP := AP e - Cost_w weapon\<rparr>) l) r) = s (store l r)) \<and>
         command (upd_entity sel (\<lambda>e. e\<lparr>AP := AP e - Cost_w weapon\<rparr>) l) = command l \<and>
         grid (upd_entity sel (\<lambda>e. e\<lparr>AP := AP e - Cost_w weapon\<rparr>) l) = grid l \<and>
         cached (upd_entity sel (\<lambda>e. e\<lparr>AP := AP e - Cost_w weapon\<rparr>) l) = cached l"
proof -
  have "DoAttack Damage l (Some t) = Inr (upd_entity sel (\<lambda>e. e\<lparr>AP := AP e - Cost_w weapon\<rparr>) l)"
    using assms by (simp add: DoAttack_def weapon0_def Let_def)
  then show ?thesis
    by (simp add: upd_entity_def)
qed

theorem DoAttack_beyond_reach_witness:
  "DoAttack ex_Damage ex_level (Some 1)
     = Inr (upd_entity 0 (\<lambda>e. e\<lparr>AP := AP e - 2\<rparr>) ex_level) \<and>
   AP (store (upd_entity 0 (\<lambda>e. e\<lparr>AP := AP e - 2\<rparr>) ex_level) 0) = 1 \<and>
   Health (store (upd_entity 0 (\<lambda>e. e\<lparr>AP := AP e - 2\<rparr>) ex_level) 1) = 5 \<and>
   s (store (upd_entity 0 (\<lambda>e. e\<lparr>AP := AP e - 2\<rparr>) ex_level) 1) = [] \<and>
   command (upd_entity 0 (\<lambda>e. e\<lparr>AP := AP e - 2\<rparr>) ex_level) = Attack"
  using DoAttack_beyond_reach [of ex_level 0 "\<lparr>Cost_w = 2, Reach_w = 1\<rparr>" "[]" 1 ex_Damage]
  by (simp add: ex_level_def ex_entity_def cell_x_def cell_y_def maxNormi_def go_int_def
      upd_entity_def)

section \<open>A failed preparation\<close>

lemma PrepAttack_loop_filter:
  "PrepAttack_loop l sel weapon rs acc =
     acc @ map (\<lambda>r. toVertex (grid l) (cell_x l r) (cell_y l r))
             (filter (\<lambda>r. r \<noteq> sel \<and>
                \<not> Reach_w weapon < maxNormi (cell_x l r) (cell_y l r) (cell_x l sel) (cell_y l sel)) rs)"
  by (induction rs arbitrary: acc) (simp_all add: Let_def)

text \<open>
  Claim C5, as amended. When the acting entity's AP is below the cost, \<^verbatim>\<open>Prep\<close> returns failure
  and changes nothing, and so does \<^verbatim>\<open>PrepAttack\<close> of the level. When the AP suffices and no
  target is in range, \<^verbatim>\<open>Prep\<close> returns failure and leaves the level, hence every highlight, as
  it was, but the candidate set of the action is replaced by the empty one; likewise
  \<^verbatim>\<open>PrepAttack\<close> changes nothing but \<^verbatim>\<open>in_range\<close>, which it empties.
\<close>

theorem Prep_failure_effects:
  "(CurAp (Ents lv (Ent a)) < Cost a \<longrightarrow>
      Prep attackable getEntsWithinRange a lv = (False, a, lv)) \<and>
   (Cost a \<le> CurAp (Ents lv (Ent a)) \<and> getEntsWithinRange (Ent a) (Range_a a) lv = [] \<longrightarrow>
      Prep attackable getEntsWithinRange a lv = (False, a\<lparr>targets := []\<rparr>, lv)) \<and>
   (selected l = Some sel \<and> Weapons (store l sel) = weapon # ws \<and>
    AP (store l sel) < Cost_w weapon \<longrightarrow>
      PrepAttack l = Inr l) \<and>
   (selected l = Some sel \<and> Weapons (store l sel) = weapon # ws \<and>
    Cost_w weapon \<le> AP (store l sel) \<and>
    (\<forall>r \<in> set (entities l). r = sel \<or>
       Reach_w weapon < maxNormi (cell_x l r) (cell_y l r) (cell_x l sel) (cell_y l sel)) \<longrightarrow>
      PrepAttack l = Inr (l\<lparr>in_range := []\<rparr>))"
proof -
  have "PrepAttack_loop l sel weapon (entities l) [] = []"
    if "\<forall>r \<in> set (entities l). r = sel \<or>
       Reach_w weapon < maxNormi (cell_x l r) (cell_y l r) (cell_x l sel) (cell_y l sel)"
    using that by (auto simp: PrepAttack_loop_filter filter_empty_conv)
  then show ?thesis
    by (auto simp: Prep_def PrepAttack_def weapon0_def Let_def)
qed

text \<open>
  The claim as stated fails: with enough AP, a candidate set left by an earlier preparation and
  no target in range any more (the only other unit is at distance 2, the reach is 1),
  \<^verbatim>\<open>PrepAttack\<close> empties \<^verbatim>\<open>in_range\<close>, and \<^verbatim>\<open>Prep\<close> empties \<^verbatim>\<open>targets\<close>.
\<close>

theorem Prep_failure_counterexample:
  "selected ex_stale = Some 0 \<and> entities ex_stale = [0, 1] \<and>
   Weapons (store ex_stale 0) = [\<lparr>Cost_w = 2, Reach_w = 1\<rparr>] \<and> AP (store ex_stale 0) = 3 \<and>
   maxNormi (cell_x ex_stale 1) (cell_y ex_stale 1) (cell_x ex_stale 0) (cell_y ex_stale 0) = 2 \<and>
   PrepAttack ex_stale = Inr (ex_stale\<lparr>in_range := []\<rparr>) \<and>
   PrepAttack ex_stale \<noteq> Inr ex_stale \<and>
   in_range ex_stale = [4] \<and>
   Prep 2 ex_no_targets ex_action ex_GameLevel = (False, ex_action\<lparr>targets := []\<rparr>, ex_GameLevel) \<and>
   Prep 2 ex_no_targets ex_action ex_GameLevel \<noteq> (False, ex_action, ex_GameLevel) \<and>
   targets ex_action = [1]"
  by (simp add: ex_stale_def ex_level_def ex_entity_def PrepAttack_def weapon0_def Let_def
      cell_x_def cell_y_def maxNormi_def go_int_def Prep_def ex_action_def ex_GameLevel_def
      ex_Entity_def ex_no_targets_def)

theorem Prep_failure_effects_witness:
  "Prep 2 ex_no_targets (ex_action\<lparr>Cost := 5\<rparr>) ex_GameLevel = (False, ex_action\<lparr>Cost := 5\<rparr>, ex_GameLevel) \<and>
   Prep 2 ex_no_targets ex_action ex_GameLevel = (False, ex_action\<lparr>targets := []\<rparr>, ex_GameLevel) \<and>
   PrepAttack (upd_entity 0 (\<lambda>e. e\<lparr>AP := 1\<rparr>) ex_stale) = Inr (upd_entity 0 (\<lambda>e. e\<lparr>AP := 1\<rparr>) ex_stale) \<and>
   PrepAttack ex_stale = Inr (ex_stale\<lparr>in_range := []\<rparr>)"
proof -
  have "Prep 2 ex_no_targets (ex_action\<lparr>Cost := 5\<rparr>) ex_GameLevel = (False, ex_action\<lparr>Cost := 5\<rparr>, ex_GameLevel)"
    using Prep_failure_effects [of ex_GameLevel "ex_action\<lparr>Cost := 5\<rparr>" 2 ex_no_targets]
    by (simp add: ex_action_def ex_GameLevel_def ex_Entity_def ex_no_targets_def)
  moreover have "Prep 2 ex_no_targets ex_action ex_GameLevel = (False, ex_action\<lparr>targets := []\<rparr>, ex_GameLevel)"
    using Prep_failure_effects [of ex_GameLevel ex_action 2 ex_no_targets]
    by (simp add: ex_action_def ex_GameLevel_def ex_Entity_def ex_no_targets_def)
  moreover have "PrepAttack (upd_entity 0 (\<lambda>e. e\<lparr>AP := 1\<rparr>) ex_stale) = Inr (upd_entity 0 (\<lambda>e. e\<lparr>AP := 1\<rparr>) ex_stale)"
    using Prep_failure_effects [of _ _ _ _ "upd_entity 0 (\<lambda>e. e\<lparr>AP := 1\<rparr>) ex_stale" 0 "\<lparr>Cost_w = 2, Reach_w = 1\<rparr>" "[]"]
    by (simp add: ex_stale_def ex_level_def ex_entity_def upd_entity_def)
  moreover have "PrepAttack ex_stale = Inr (ex_stale\<lparr>in_range := []\<rparr>)"
    using Prep_failure_effects [of _ _ _ _ ex_stale 0 "\<lparr>Cost_w = 2, Reach_w = 1\<rparr>" "[]"]
    by (simp add: ex_stale_def ex_level_def ex_entity_def cell_x_def cell_y_def maxNormi_def go_int_def)
  ultimately show ?thesis by simp
qed

section \<open>Cancelling the basic attack\<close>

lemma or_and_not_int: "(x OR h) AND NOT h = x AND NOT (h::int)"
  by (simp add: bit_eq_iff bit_simps) blast

lemma Prep_loop_highlight:
  "cell_highlight (Prep_loop h ts lv) p AND NOT h = cell_highlight lv p AND NOT h"
  by (induction ts arbitrary: lv) (simp_all add: mark_cell_def or_and_not_int)

text \<open>
  Claim C8. \<^verbatim>\<open>Cancel\<close> is defined on every state of the action and the level, prepared or not.
  Cancelling twice gives the state cancelling once gives; after it the action has no mark and no
  targets and no cell carries the highlight of the action. After \<^verbatim>\<open>Prep\<close> and then \<^verbatim>\<open>Cancel\<close>
  every cell has the highlight it had before with the action's bits removed; in particular a
  cell that was ``none'' (zero) before \<^verbatim>\<open>Prep\<close> marked it is ``none'' again.
\<close>

theorem Cancel_idempotent_clears:
  "Cancel attackable (fst (Cancel attackable a lv)) (snd (Cancel attackable a lv))
     = Cancel attackable a lv \<and>
   mark (fst (Cancel attackable a lv)) = None \<and>
   targets (fst (Cancel attackable a lv)) = [] \<and>
   (\<forall>p. cell_highlight (snd (Cancel attackable a lv)) p AND attackable = 0) \<and>
   (\<forall>p. cell_highlight
          (snd (Cancel attackable (fst (snd (Prep attackable getEntsWithinRange a lv)))
                  (snd (snd (Prep attackable getEntsWithinRange a lv))))) p
        = cell_highlight lv p AND NOT attackable) \<and>
   (\<forall>p. cell_highlight lv p = 0 \<longrightarrow>
        cell_highlight
          (snd (Cancel attackable (fst (snd (Prep attackable getEntsWithinRange a lv)))
                  (snd (snd (Prep attackable getEntsWithinRange a lv))))) p = 0)"
proof -
  have idem: "(x AND NOT attackable) AND NOT attackable = x AND NOT attackable" for x :: int
    by (simp add: bit_eq_iff bit_simps) 
  have clr: "(x AND NOT attackable) AND attackable = 0" for x :: int
    by (simp add: bit_eq_iff bit_simps)
  have prep: "cell_highlight (snd (snd (Prep attackable getEntsWithinRange a lv))) p AND NOT attackable
      = cell_highlight lv p AND NOT attackable" for p
    by (simp add: Prep_def Let_def Prep_loop_highlight)
  show ?thesis
    by (simp add: Cancel_def clearCache_h_def idem clr prep)
qed

theorem Cancel_idempotent_clears_witness:
  "cell_highlight (snd (snd (Prep 2 ex_one_target ex_action ex_GameLevel))) (1, 0) = 2 \<and>
   cell_highlight
     (snd (Cancel 2 (fst (snd (Prep 2 ex_one_target ex_action ex_GameLevel)))
             (snd (snd (Prep 2 ex_one_target ex_action ex_GameLevel))))) (1, 0) = 0"
proof -
  have "cell_highlight ex_GameLevel (1, 0) = 0" by (simp add: ex_GameLevel_def)
  then have "cell_highlight
     (snd (Cancel 2 (fst (snd (Prep 2 ex_one_target ex_action ex_GameLevel)))
             (snd (snd (Prep 2 ex_one_target ex_action ex_GameLevel))))) (1, 0) = 0"
    using Cancel_idempotent_clears [of 2 ex_action ex_GameLevel ex_one_target] by blast
  moreover have "cell_highlight (snd (snd (Prep 2 ex_one_target ex_action ex_GameLevel))) (1, 0) = 2"
    by (simp add: Prep_def ex_action_def ex_GameLevel_def ex_Entity_def mark_cell_def
        ex_one_target_def)
  ultimately show ?thesis by simp
qed

section \<open>Loading\<close>

lemma load_cells_Inr:
  "load_cells row js = Inr cs \<Longrightarrow>
     length cs = length js \<and>
     (\<forall>k < length js. js ! k < length row \<and>
        resolve (row ! (js ! k)) = Inr (Terrain (cs ! k)) \<and> highlight (cs ! k) = None_hl)"
proof (induction js arbitrary: cs)
  case Nil
  then show ?case by simp
next
  case (Cons j js)
  from Cons.prems obtain t cs' where j: "j < length row" and t: "resolve (row ! j) = Inr t"
    and cs': "load_cells row js = Inr cs'" and cs: "cs = \<lparr>Terrain = t, highlight = None_hl\<rparr> # cs'"
    by (auto split: if_splits sum.splits)
  from Cons.IH [OF cs'] j t cs show ?case
    by (auto simp: nth_Cons split: nat.splits)
qed

lemma load_cells_isl:
  "isl (load_cells row js) \<longleftrightarrow> (\<exists>j \<in> set js. length row \<le> j \<or> isl (resolve (row ! j)))"
  by (induction js) (auto split: sum.splits)

lemma load_rows_Inr:
  "load_rows rows dy = Inr g \<Longrightarrow>
     length g = length rows \<and>
     (\<forall>i < length rows. length (g ! i) = dy \<and>
        (\<forall>j < dy. j < length (rows ! i) \<and>
           resolve (rows ! i ! j) = Inr (Terrain (g ! i ! j)) \<and> highlight (g ! i ! j) = None_hl))"
proof (induction rows arbitrary: g)
  case Nil
  then show ?case by simp
next
  case (Cons row rows)
  from Cons.prems obtain cs g' where cs: "load_cells row [0..<dy] = Inr cs"
    and g': "load_rows rows dy = Inr g'" and g: "g = cs # g'"
    by (auto split: sum.splits)
  from load_cells_Inr [OF cs] have "length cs = dy"
    and "\<forall>j < dy. j < length row \<and> resolve (row ! j) = Inr (Terrain (cs ! j)) \<and> highlight (cs ! j) = None_hl"
    by auto
  with Cons.IH [OF g'] g show ?case
    by (auto simp: nth_Cons split: nat.splits)
qed

lemma load_rows_isl:
  "isl (load_rows rows dy) \<longleftrightarrow>
     (\<exists>i < length rows. \<exists>j < dy. length (rows ! i) \<le> j \<or> isl (resolve (rows ! i ! j)))"
proof (induction rows)
  case Nil
  then show ?case by simp
next
  case (Cons row rows)
  have "isl (load_rows (row # rows) dy) \<longleftrightarrow> isl (load_cells row [0..<dy]) \<or> isl (load_rows rows dy)"
    by (auto split: sum.splits)
  also have "\<dots> \<longleftrightarrow> (\<exists>j < dy. length row \<le> j \<or> isl (resolve (row ! j))) \<or>
      (\<exists>i < length rows. \<exists>j < dy. length (rows ! i) \<le> j \<or> isl (resolve (rows ! i ! j)))"
    using Cons.IH by (auto simp: load_cells_isl)
  also have "\<dots> \<longleftrightarrow> (\<exists>i < length (row # rows). \<exists>j < dy.
      length ((row # rows) ! i) \<le> j \<or> isl (resolve ((row # rows) ! i ! j)))"
    (is "?A \<or> ?B \<longleftrightarrow> ?C")
  proof
    assume "?A \<or> ?B"
    then show ?C
    proof
      assume ?A
      then show ?C by (intro exI [of _ 0]) simp
    next
      assume ?B
      then obtain i where "i < length rows"
        "\<exists>j < dy. length (rows ! i) \<le> j \<or> isl (resolve (rows ! i ! j))" by blast
      then show ?C by (intro exI [of _ "Suc i"]) simp
    qed
  next
    assume ?C
    then obtain i where i: "i < length (row # rows)"
      "\<exists>j < dy. length ((row # rows) ! i) \<le> j \<or> isl (resolve ((row # rows) ! i ! j))" by blast
    then show "?A \<or> ?B" by (cases i) auto
  qed
  finally show ?case .
qed

text \<open>What happens to a document without any row, which is what a document that does not parse
  leaves behind: the first row is indexed and the construction panics.\<close>

lemma LoadLevel_no_rows:
  "Cells ldc = [] \<Longrightarrow> LoadLevel (Inr ldc) MakeTerrain st = Inl IndexOutOfRange"
  by (simp add: LoadLevel_def)

text \<open>
  Claim C6, as amended. When the file cannot be opened or read, that error is returned. For a
  document with at least one row, the grid has one row per row of the document and as many
  columns as the first row of the document has cells; labels beyond the length of the first row
  are never read. Construction panics, returning nothing, when some position of that rectangle
  is missing from its row or holds a label that is not recognized. When every position of the
  rectangle is present and recognized, the error of the background loader is returned if the
  background cannot be loaded, and a level is returned otherwise. Whenever a level is returned,
  every cell of its grid has the terrain resolved from the label at its position, no highlight,
  and the level is otherwise empty.
\<close>

theorem LoadLevel_outcomes:
  "LoadLevel (Inl err) MakeTerrain st = Inr (Inl err) \<and>
   (i < length (Cells ldc) \<and> j < length (Cells ldc ! 0) \<and>
    (length (Cells ldc ! i) \<le> j \<or> isl (resolve (Cells ldc ! i ! j))) \<longrightarrow>
      isl (LoadLevel (Inr ldc) MakeTerrain st)) \<and>
   (Cells ldc \<noteq> [] \<and> MakeTerrain (Image ldc) = Some err' \<and>
    (\<forall>i < length (Cells ldc). \<forall>j < length (Cells ldc ! 0).
       j < length (Cells ldc ! i) \<and> \<not> isl (resolve (Cells ldc ! i ! j))) \<longrightarrow>
      LoadLevel (Inr ldc) MakeTerrain st = Inr (Inl err')) \<and>
   (Cells ldc \<noteq> [] \<and> MakeTerrain (Image ldc) = None \<and>
    (\<forall>i < length (Cells ldc). \<forall>j < length (Cells ldc ! 0).
       j < length (Cells ldc ! i) \<and> \<not> isl (resolve (Cells ldc ! i ! j))) \<longrightarrow>
      \<not> isl (LoadLevel (Inr ldc) MakeTerrain st) \<and> \<not> isl (projr (LoadLevel (Inr ldc) MakeTerrain st))) \<and>
   (LoadLevel (Inr ldc) MakeTerrain st = Inr (Inr l) \<longrightarrow>
      length (grid l) = length (Cells ldc) \<and>
      (\<forall>i < length (Cells ldc).
         length (grid l ! i) = length (Cells ldc ! 0) \<and>
         (\<forall>j < length (Cells ldc ! 0).
            resolve (Cells ldc ! i ! j) = Inr (Terrain (grid l ! i ! j)) \<and>
            highlight (grid l ! i ! j) = None_hl)) \<and>
      \<not> cached l \<and> command l = NoCommand \<and> selected l = None \<and> entities l = [])"
proof -
  have p1: "LoadLevel (Inl err) MakeTerrain st = Inr (Inl err)"
    by (simp add: LoadLevel_def)
  have p2: "isl (LoadLevel (Inr ldc) MakeTerrain st)"
    if a: "i < length (Cells ldc) \<and> j < length (Cells ldc ! 0) \<and>
      (length (Cells ldc ! i) \<le> j \<or> isl (resolve (Cells ldc ! i ! j)))"
  proof -
    from a obtain row0 rows where c: "Cells ldc = row0 # rows" by (cases "Cells ldc") auto
    from a c have "isl (load_rows (Cells ldc) (length row0))"
      unfolding load_rows_isl by auto
    then show ?thesis
      using c by (auto simp: LoadLevel_def split: sum.splits)
  qed
  have good: "\<not> isl (load_rows (Cells ldc) (length (Cells ldc ! 0)))"
    if a: "\<forall>i < length (Cells ldc). \<forall>j < length (Cells ldc ! 0).
         j < length (Cells ldc ! i) \<and> \<not> isl (resolve (Cells ldc ! i ! j))"
    using a unfolding load_rows_isl by (auto simp: not_le)
  have p3: "LoadLevel (Inr ldc) MakeTerrain st = Inr (Inl err')"
    if a: "Cells ldc \<noteq> [] \<and> MakeTerrain (Image ldc) = Some err' \<and>
      (\<forall>i < length (Cells ldc). \<forall>j < length (Cells ldc ! 0).
         j < length (Cells ldc ! i) \<and> \<not> isl (resolve (Cells ldc ! i ! j)))"
  proof -
    from a obtain row0 rows where c: "Cells ldc = row0 # rows" by (cases "Cells ldc") auto
    from a good c have "\<not> isl (load_rows (Cells ldc) (length row0))" by simp
    then show ?thesis
      using c a by (auto simp: LoadLevel_def split: sum.splits)
  qed
  have p4: "\<not> isl (LoadLevel (Inr ldc) MakeTerrain st) \<and>
            \<not> isl (projr (LoadLevel (Inr ldc) MakeTerrain st))"
    if a: "Cells ldc \<noteq> [] \<and> MakeTerrain (Image ldc) = None \<and>
      (\<forall>i < length (Cells ldc). \<forall>j < length (Cells ldc ! 0).
         j < length (Cells ldc ! i) \<and> \<not> isl (resolve (Cells ldc ! i ! j)))"
  proof -
    from a obtain row0 rows where c: "Cells ldc = row0 # rows" by (cases "Cells ldc") auto
    from a good c have "\<not> isl (load_rows (Cells ldc) (length row0))" by simp
    then show ?thesis
      using c a by (auto simp: LoadLevel_def split: sum.splits)
  qed
  have p5: "length (grid l) = length (Cells ldc) \<and>
      (\<forall>i < length (Cells ldc).
         length (grid l ! i) = length (Cells ldc ! 0) \<and>
         (\<forall>j < length (Cells ldc ! 0).
            resolve (Cells ldc ! i ! j) = Inr (Terrain (grid l ! i ! j)) \<and>
            highlight (grid l ! i ! j) = None_hl)) \<and>
      \<not> cached l \<and> command l = NoCommand \<and> selected l = None \<and> entities l = []"
    if a: "LoadLevel (Inr ldc) MakeTerrain st = Inr (Inr l)"
  proof -
    from a obtain row0 rows where c: "Cells ldc = row0 # rows"
      by (cases "Cells ldc") (auto simp: LoadLevel_def)
    from a c obtain g where g: "load_rows (Cells ldc) (length row0) = Inr g"
      and l: "l = \<lparr>grid = g, cached = False, entities = [], selected = None,
                   winx = 0, winy = 0, command = NoCommand, reachable = [],
                   in_range = [], store = st\<rparr>"
      by (auto simp: LoadLevel_def split: sum.splits option.splits)
    from load_rows_Inr [OF g] c l show ?thesis by simp
  qed
  show ?thesis
    using p1 p2 p3 p4 p5 by blast
qed

text \<open>
  The claim as stated fails: a document whose second row is longer than the first and holds an
  unrecognized label in the extra position loads without failure.
\<close>

theorem LoadLevel_counterexample:
  "Cells ex_ragged ! 1 ! 1 = ''lava'' \<and>
   resolve ''lava'' = Inl (Panic ''WTF'') \<and>
   LoadLevel (Inr ex_ragged) ex_MakeTerrain ex_store =
     Inr (Inr \<lparr>grid = [[\<lparr>Terrain = Grass, highlight = None_hl\<rparr>],
                         [\<lparr>Terrain = Grass, highlight = None_hl\<rparr>]],
               cached = False, entities = [], selected = None, winx = 0, winy = 0,
               command = NoCommand, reachable = [], in_range = [], store = ex_store\<rparr>)"
  by (simp add: ex_ragged_def ex_MakeTerrain_def LoadLevel_def resolve_def)

theorem LoadLevel_outcomes_witness:
  "LoadLevel (Inl ''no such file'') ex_MakeTerrain ex_store = Inr (Inl ''no such file'') \<and>
   isl (LoadLevel (Inr ex_bad_label) ex_MakeTerrain ex_store) \<and>
   LoadLevel (Inr ex_doc) ex_no_background ex_store = Inr (Inl ''cannot load the background'') \<and>
   \<not> isl (LoadLevel (Inr ex_doc) ex_MakeTerrain ex_store) \<and>
   \<not> isl (projr (LoadLevel (Inr ex_doc) ex_MakeTerrain ex_store)) \<and>
   Terrain (grid (projr (projr (LoadLevel (Inr ex_doc) ex_MakeTerrain ex_store))) ! 1 ! 0) = Water"
proof -
  note A = LoadLevel_outcomes [THEN conjunct1]
  note B = LoadLevel_outcomes [THEN conjunct2, THEN conjunct1, rule_format]
  note C = LoadLevel_outcomes [THEN conjunct2, THEN conjunct2, THEN conjunct1, rule_format]
  note D = LoadLevel_outcomes [THEN conjunct2, THEN conjunct2, THEN conjunct2, THEN conjunct1,
      rule_format]
  note E = LoadLevel_outcomes [THEN conjunct2, THEN conjunct2, THEN conjunct2, THEN conjunct2,
      rule_format]
  have good: "\<forall>i < length (Cells ex_doc). \<forall>j < length (Cells ex_doc ! 0).
      j < length (Cells ex_doc ! i) \<and> \<not> isl (resolve (Cells ex_doc ! i ! j))"
    by (auto simp: ex_doc_def resolve_def less_Suc_eq numeral_2_eq_2)
  have a: "LoadLevel (Inl ''no such file'') ex_MakeTerrain ex_store = Inr (Inl ''no such file'')"
    by (rule A)
  have b: "isl (LoadLevel (Inr ex_bad_label) ex_MakeTerrain ex_store)"
    by (rule B [of 0 _ 1]) (simp add: ex_bad_label_def resolve_def)
  have c: "LoadLevel (Inr ex_doc) ex_no_background ex_store = Inr (Inl ''cannot load the background'')"
    by (rule C) (use good in \<open>simp add: ex_no_background_def ex_doc_def\<close>)
  have d: "\<not> isl (LoadLevel (Inr ex_doc) ex_MakeTerrain ex_store) \<and>
      \<not> isl (projr (LoadLevel (Inr ex_doc) ex_MakeTerrain ex_store))"
    by (rule D) (use good in \<open>simp add: ex_MakeTerrain_def ex_doc_def\<close>)
  then have "LoadLevel (Inr ex_doc) ex_MakeTerrain ex_store
      = Inr (Inr (projr (projr (LoadLevel (Inr ex_doc) ex_MakeTerrain ex_store))))"
    by (metis sum.collapse(2))
  from E [OF this]
  have "\<forall>i < length (Cells ex_doc). \<forall>j < length (Cells ex_doc ! 0).
      resolve (Cells ex_doc ! i ! j) =
        Inr (Terrain (grid (projr (projr (LoadLevel (Inr ex_doc) ex_MakeTerrain ex_store))) ! i ! j))"
    by blast
  from this [rule_format, of 1 0]
  have e: "Terrain (grid (projr (projr (LoadLevel (Inr ex_doc) ex_MakeTerrain ex_store))) ! 1 ! 0) = Water"
    by (simp add: ex_doc_def resolve_def)
  from a b c d e show ?thesis by simp
qed

section \<open>The highlight overlay\<close>

lemma upd_entity_fields [simp]:
  "grid (upd_entity r f l) = grid l"
  "cached (upd_entity r f l) = cached l"
  "entities (upd_entity r f l) = entities l"
  "selected (upd_entity r f l) = selected l"
  "command (upd_entity r f l) = command l"
  "reachable (upd_entity r f l) = reachable l"
  "in_range (upd_entity r f l) = in_range l"
  "store (upd_entity r f l) q = (if q = r then f (store l r) else store l q)"
  by (simp_all add: upd_entity_def)

lemma all_none_Clear [simp]: "all_none (map (map Clear) g)"
  by (auto simp: all_none_def Clear_def)

lemma no_mouseover_Clear [simp]: "no_mouseover (map (map Clear) g)"
  by (auto simp: no_mouseover_def Clear_def)

lemma all_none_no_mouseover: "all_none g \<Longrightarrow> no_mouseover g"
  by (auto simp: all_none_def no_mouseover_def)

lemma clearCache_fields [simp]:
  "entities (clearCache l) = entities l"
  "selected (clearCache l) = selected l"
  "command (clearCache l) = command l"
  "reachable (clearCache l) = reachable l"
  "in_range (clearCache l) = in_range l"
  "store (clearCache l) = store l"
  "\<not> cached (clearCache l)"
  by (simp_all add: clearCache_def)

lemma clearCache_no_mouseover [simp]:
  "no_mouseover (grid l) \<Longrightarrow> no_mouseover (grid (clearCache l))"
  by (simp add: clearCache_def)

lemma clearCache_all_none [simp]:
  "cache_inv l \<Longrightarrow> all_none (grid (clearCache l))"
  by (auto simp: clearCache_def cache_inv_def)

lemma clearCache_cache_inv [simp]:
  "cache_inv l \<Longrightarrow> cache_inv (clearCache l)"
  by (simp add: cache_inv_def)

lemma cache_inv_cong:
  "grid l' = grid l \<Longrightarrow> cached l' = cached l \<Longrightarrow> cache_inv l' = cache_inv l"
  by (simp add: cache_inv_def)

lemma cache_inv_updates [simp]:
  "cache_inv (upd_entity r f l) = cache_inv l"
  "cache_inv (l\<lparr>command := c\<rparr>) = cache_inv l"
  "cache_inv (l\<lparr>selected := sl\<rparr>) = cache_inv l"
  "cache_inv (l\<lparr>reachable := rs\<rparr>) = cache_inv l"
  "cache_inv (l\<lparr>in_range := ir\<rparr>) = cache_inv l"
  "cache_inv (l\<lparr>entities := es\<rparr>) = cache_inv l"
  "cache_inv (l\<lparr>store := st\<rparr>) = cache_inv l"
  "cache_inv (l\<lparr>winx := wx\<rparr>) = cache_inv l"
  "cache_inv (l\<lparr>winy := wy\<rparr>) = cache_inv l"
  by (simp_all add: cache_inv_def)

text \<open>Writing a highlight other than \<open>MouseOver\<close>.\<close>

lemma set_highlight_no_mouseover:
  assumes "set_highlight g x y h = Inr g'" and "no_mouseover g" and "h \<noteq> MouseOver"
  shows "no_mouseover g'"
proof -
  from assms(1) obtain c where c: "cell g x y = Inr c"
    and g': "g' = g[nat x := (g ! nat x)[nat y := c\<lparr>highlight := h\<rparr>]]"
    by (auto simp: set_highlight_def split: sum.splits)
  from c have x: "nat x < length g"
    by (auto simp: cell_def split: if_splits)
  show ?thesis
    unfolding no_mouseover_def
  proof (intro ballI)
    fix row c' assume row: "row \<in> set g'" and c': "c' \<in> set row"
    from row g' have "row = (g ! nat x)[nat y := c\<lparr>highlight := h\<rparr>] \<or> row \<in> set g"
      using set_update_subset_insert [of g "nat x"] by auto
    then show "highlight c' \<noteq> MouseOver"
    proof
      assume r: "row = (g ! nat x)[nat y := c\<lparr>highlight := h\<rparr>]"
      with c' have "c' = c\<lparr>highlight := h\<rparr> \<or> c' \<in> set (g ! nat x)"
        using set_update_subset_insert [of "g ! nat x" "nat y"] by auto
      moreover have "g ! nat x \<in> set g" using x by simp
      ultimately show ?thesis using assms(2,3) by (auto simp: no_mouseover_def)
    next
      assume "row \<in> set g"
      with c' assms(2) show ?thesis by (auto simp: no_mouseover_def)
    qed
  qed
qed

lemma mark_cells_no_mouseover:
  "mark_cells g vs h = Inr g' \<Longrightarrow> no_mouseover g \<Longrightarrow> h \<noteq> MouseOver \<Longrightarrow> no_mouseover g'"
proof (induction vs arbitrary: g)
  case Nil
  then show ?case by simp
next
  case (Cons v vs)
  from Cons.prems(1) obtain x y g1 where "set_highlight g x y h = Inr g1"
    and "mark_cells g1 vs h = Inr g'"
    by (auto split: sum.splits)
  then show ?case
    using Cons.IH [of g1] set_highlight_no_mouseover [of g x y h g1] Cons.prems(2,3) by simp
qed

lemma maintainCommand_fields:
  "maintainCommand l = Inr l' \<Longrightarrow>
     cached l' = cached l \<and> entities l' = entities l \<and> selected l' = selected l \<and>
     store l' = store l \<and> command l' = command l"
  by (auto simp: maintainCommand_def split: Command.splits sum.splits)

lemma maintainCommand_no_mouseover:
  "maintainCommand l = Inr l' \<Longrightarrow> no_mouseover (grid l) \<Longrightarrow> no_mouseover (grid l')"
  by (auto simp: maintainCommand_def split: Command.splits sum.splits
      dest: mark_cells_no_mouseover)

lemma Think_entities_no_mouseover:
  "no_mouseover (grid l) \<Longrightarrow> no_mouseover (grid (fst (Think_entities ethink es l ds)))"
  by (induction es arbitrary: l ds) (simp_all add: Let_def)

lemma Think_entities_cache_inv:
  "cache_inv l \<Longrightarrow> cache_inv (fst (Think_entities ethink es l ds))"
  by (induction es arbitrary: l ds) (simp_all add: Let_def)

lemma Think_entities_cleared:
  "\<not> cached l \<Longrightarrow>
     \<not> cached (fst (Think_entities ethink es l ds)) \<and>
     grid (fst (Think_entities ethink es l ds)) = grid l"
  by (induction es arbitrary: l ds) (simp_all add: Let_def clearCache_def)

lemma Think_entities_moved:
  assumes "cache_inv l" and "distinct es" and "e \<in> set es" and "moves ethink (store l e)"
  shows "\<not> cached (fst (Think_entities ethink es l ds)) \<and>
         all_none (grid (fst (Think_entities ethink es l ds)))"
  using assms
proof (induction es arbitrary: l ds)
  case Nil
  then show ?case by simp
next
  case (Cons x xs)
  define l1 where "l1 = upd_entity x ethink l"
  define l2 where "l2 = (if cell_x l x \<noteq> cell_x l1 x \<or> cell_y l x \<noteq> cell_y l1 x
                         then clearCache l1 else l1)"
  have step: "Think_entities ethink (x # xs) l ds =
      Think_entities ethink xs l2
        (ds @ [Upright (fst (pos (store l2 x)) + 1 / 4) (snd (pos (store l2 x)) + 1 / 4) x])"
    by (simp add: Let_def l1_def l2_def)
  have inv2: "cache_inv l2"
    using Cons.prems(1) by (simp add: l2_def l1_def)
  show ?case
  proof (cases "e = x")
    case True
    with Cons.prems(4) have "cell_x l x \<noteq> cell_x l1 x \<or> cell_y l x \<noteq> cell_y l1 x"
      by (auto simp: moves_def cell_x_def cell_y_def l1_def)
    then have l2: "l2 = clearCache l1" by (simp add: l2_def)
    have "\<not> cached l2" and "all_none (grid l2)"
      using Cons.prems(1) by (simp_all add: l2 l1_def)
    then show ?thesis
      unfolding step using Think_entities_cleared [of l2 ethink xs] by simp
  next
    case False
    with Cons.prems have "e \<in> set xs" and "distinct xs" by auto
    moreover have "store l2 e = store l e"
      using False by (simp add: l2_def l1_def)
    ultimately show ?thesis
      unfolding step using Cons.IH [OF inv2] Cons.prems(4) by simp
  qed
qed


lemma Think_result:
  assumes "Think ethink WindowToBoard l = Inr (l', ds)"
  shows "\<exists>l2. maintainCommand (fst (Think_entities ethink (entities l) l [])) = Inr l2 \<and>
           l' = l2\<lparr>cached := True\<rparr> \<and>
           (0 \<le> go_int (fst (WindowToBoard (winx l2) (winy l2))) \<and>
            0 \<le> go_int (snd (WindowToBoard (winx l2) (winy l2))) \<and>
            go_int (fst (WindowToBoard (winx l2) (winy l2))) < int (length (grid l2)) \<and>
            go_int (snd (WindowToBoard (winx l2) (winy l2))) < int (length (grid l2 ! 0)) \<longrightarrow>
            (\<exists>c. cell (grid l2) (go_int (fst (WindowToBoard (winx l2) (winy l2))))
                     (go_int (snd (WindowToBoard (winx l2) (winy l2)))) = Inr c \<and>
                 FlatCopy (of_int (go_int (fst (WindowToBoard (winx l2) (winy l2)))))
                          (of_int (go_int (snd (WindowToBoard (winx l2) (winy l2)))))
                          (c\<lparr>highlight := MouseOver\<rparr>) \<in> set ds))"
proof -
  obtain l1 ds1 where te: "Think_entities ethink (entities l) l [] = (l1, ds1)"
    by (cases "Think_entities ethink (entities l) l []") auto
  from assms te obtain l2 where mc: "maintainCommand l1 = Inr l2"
    by (auto simp: Think_def split: sum.splits)
  show ?thesis
    using assms te mc
    by (auto simp: Think_def Let_def split: sum.splits if_splits option.splits)
qed

lemma Think_overlay_inv:
  assumes "Think ethink WindowToBoard l = Inr (l', ds)" and "overlay_inv l"
  shows "overlay_inv l'"
proof -
  from Think_result [OF assms(1)] obtain l2
    where mc: "maintainCommand (fst (Think_entities ethink (entities l) l [])) = Inr l2"
      and l': "l' = l2\<lparr>cached := True\<rparr>" by blast
  have "no_mouseover (grid (fst (Think_entities ethink (entities l) l [])))"
    using assms(2) by (simp add: overlay_inv_def Think_entities_no_mouseover)
  from maintainCommand_no_mouseover [OF mc this] l' show ?thesis
    by (simp add: overlay_inv_def cache_inv_def)
qed

lemma overlay_inv_updates [simp]:
  "overlay_inv (upd_entity r f l) = overlay_inv l"
  "overlay_inv (l\<lparr>command := c\<rparr>) = overlay_inv l"
  "overlay_inv (l\<lparr>selected := sl\<rparr>) = overlay_inv l"
  "overlay_inv (l\<lparr>reachable := rs\<rparr>) = overlay_inv l"
  "overlay_inv (l\<lparr>in_range := ir\<rparr>) = overlay_inv l"
  "overlay_inv (l\<lparr>entities := es\<rparr>) = overlay_inv l"
  "overlay_inv (l\<lparr>store := st\<rparr>) = overlay_inv l"
  "overlay_inv (l\<lparr>winx := wx\<rparr>) = overlay_inv l"
  "overlay_inv (l\<lparr>winy := wy\<rparr>) = overlay_inv l"
  by (simp_all add: overlay_inv_def)

lemma clearCache_overlay_inv [simp]: "overlay_inv l \<Longrightarrow> overlay_inv (clearCache l)"
  by (simp add: overlay_inv_def)

lemma PrepAttack_overlay_inv: "PrepAttack l = Inr l' \<Longrightarrow> overlay_inv l \<Longrightarrow> overlay_inv l'"
  by (auto simp: PrepAttack_def Let_def split: option.splits sum.splits if_splits)

lemma PrepMove_overlay_inv: "PrepMove l = Inr l' \<Longrightarrow> overlay_inv l \<Longrightarrow> overlay_inv l'"
  by (auto simp: PrepMove_def Let_def split: option.splits sum.splits if_splits)

lemma DoMove_overlay_inv: "DoMove l x y = Inr l' \<Longrightarrow> overlay_inv l \<Longrightarrow> overlay_inv l'"
  by (auto simp: DoMove_def Let_def split: option.splits sum.splits if_splits)

lemma DoAttack_overlay_inv: "DoAttack Damage l t = Inr l' \<Longrightarrow> overlay_inv l \<Longrightarrow> overlay_inv l'"
  by (auto simp: DoAttack_def Let_def split: option.splits sum.splits if_splits)

lemma HandleEventGroup_overlay_inv:
  assumes "HandleEventGroup Damage WindowToBoard l cursor press = Inr l'" and "overlay_inv l"
  shows "overlay_inv l'"
proof -
  define l0 where "l0 = l\<lparr>winx := fst cursor, winy := snd cursor\<rparr>"
  have inv0: "overlay_inv l0" using assms(2) by (simp add: l0_def)
  have mv: "overlay_inv l1" if "DoMove l0 x y = Inr l1" for x y l1
    using DoMove_overlay_inv [OF that inv0] .
  have at: "overlay_inv l1" if "DoAttack Damage l0 t = Inr l1" for t l1
    using DoAttack_overlay_inv [OF that inv0] .
  show ?thesis
    using assms(1) inv0 mv at unfolding HandleEventGroup_def l0_def [symmetric] Let_def
    by (auto split: prod.splits if_splits Command.splits sum.splits option.splits)
qed

lemma LoadLevel_overlay_inv:
  assumes "LoadLevel file MakeTerrain st = Inr (Inr l)"
  shows "overlay_inv l"
proof -
  from assms obtain ldc where f: "file = Inr ldc"
    by (cases "file") (auto simp: LoadLevel_def)
  from assms f obtain row0 rows where c: "Cells ldc = row0 # rows"
    by (cases "Cells ldc") (auto simp: LoadLevel_def)
  from assms f c obtain g where g: "load_rows (Cells ldc) (length row0) = Inr g"
    and l: "grid l = g" "\<not> cached l"
    by (auto simp: LoadLevel_def split: sum.splits option.splits)
  have "all_none g"
    unfolding all_none_def
  proof (intro ballI)
    fix row c assume "row \<in> set g" "c \<in> set row"
    then obtain i j where "i < length g" "row = g ! i" "j < length row" "c = row ! j"
      by (auto simp: in_set_conv_nth)
    with load_rows_Inr [OF g] show "highlight c = None_hl" by auto
  qed
  then show ?thesis
    using l by (simp add: overlay_inv_def cache_inv_def all_none_no_mouseover)
qed

lemma reachable_level_overlay_inv: "reachable_level l \<Longrightarrow> overlay_inv l"
proof (induction rule: reachable_level.induct)
  case (loaded doc MakeTerrain st l)
  then show ?case by (rule LoadLevel_overlay_inv)
next
  case (entities_edited l es st)
  then show ?case by simp
next
  case (thought l ethink WindowToBoard l' ds)
  then show ?case using Think_overlay_inv by blast
next
  case (move_prepared l l')
  then show ?case using PrepMove_overlay_inv by blast
next
  case (attack_prepared l l')
  then show ?case using PrepAttack_overlay_inv by blast
next
  case (moved l click_x click_y l')
  then show ?case using DoMove_overlay_inv by blast
next
  case (attacked l Damage target l')
  then show ?case using DoAttack_overlay_inv by blast
next
  case (event_handled l Damage WindowToBoard cursor press l')
  then show ?case using HandleEventGroup_overlay_inv by blast
qed


text \<open>
  Claim C7. Let the level be one that can arise (loaded, then changed by the level's own
  functions), with no entity listed twice. If the step of some entity takes it to another cell,
  then after the entity loop of \<^verbatim>\<open>Think\<close>, that is before \<^verbatim>\<open>maintainCommand\<close> recomputes the
  highlights, the flag \<^verbatim>\<open>cached\<close> is false and every cell of the grid has the highlight
  \<^verbatim>\<open>None\<close>; and when \<^verbatim>\<open>Think\<close> returns, the grid it leaves is the one \<^verbatim>\<open>maintainCommand\<close> computed
  from that cleared level.
\<close>

theorem Think_clears_cache_on_move:
  assumes "reachable_level l" and "distinct (entities l)"
    and "e \<in> set (entities l)" and "moves ethink (store l e)"
  shows "\<not> cached (fst (Think_entities ethink (entities l) l [])) \<and>
         all_none (grid (fst (Think_entities ethink (entities l) l []))) \<and>
         (Think ethink WindowToBoard l = Inr (l', ds) \<longrightarrow>
            (\<exists>l2. maintainCommand (fst (Think_entities ethink (entities l) l [])) = Inr l2 \<and>
                  grid l' = grid l2 \<and> cached l'))"
proof -
  have "cache_inv l"
    using reachable_level_overlay_inv [OF assms(1)] by (simp add: overlay_inv_def)
  from Think_entities_moved [OF this assms(2,3,4)]
  have "\<not> cached (fst (Think_entities ethink (entities l) l [])) \<and>
        all_none (grid (fst (Think_entities ethink (entities l) l [])))" .
  moreover have "\<exists>l2. maintainCommand (fst (Think_entities ethink (entities l) l [])) = Inr l2 \<and>
                  grid l' = grid l2 \<and> cached l'"
    if "Think ethink WindowToBoard l = Inr (l', ds)"
    using Think_result [OF that] by auto
  ultimately show ?thesis by blast
qed


section \<open>The overlay on concrete levels\<close>

lemmas ex_defs = ex_loaded_def ex_populated_def ex_selected_def ex_attacking_def ex_painted_def
  ex_units_def ex_entity_def ex_WindowToBoard_def ex_store_def ex_MakeTerrain_def ex_doc_def

lemma go_int_values [simp]:
  "go_int 0 = 0" "go_int 1 = 1" "go_int 2 = 2" "go_int (1 / 2) = 0" "go_int (3 / 2) = 1"
  by code_simp+

lemma upd_entity_stay [simp]: "upd_entity r ex_stay l = l"
  by (simp add: upd_entity_def ex_stay_def)

lemma ex_loaded_reachable: "reachable_level ex_loaded"
proof -
  have "LoadLevel (Inr ex_doc) ex_MakeTerrain ex_store = Inr (Inr ex_loaded)"
    by (simp add: LoadLevel_def ex_doc_def ex_MakeTerrain_def ex_loaded_def resolve_def
        upt_rec numeral_2_eq_2)
  then show ?thesis by (rule reachable_level.loaded)
qed

lemma ex_populated_reachable: "reachable_level ex_populated"
  unfolding ex_populated_def using ex_loaded_reachable by (rule reachable_level.entities_edited)

lemma ex_selected_reachable: "reachable_level ex_selected"
proof -
  have "HandleEventGroup ex_Damage ex_WindowToBoard ex_populated (0, 0) True = Inr ex_selected"
    by (simp add: HandleEventGroup_def ex_defs Let_def closer_def clearCache_def)
  with ex_populated_reachable show ?thesis by (rule reachable_level.event_handled)
qed

lemma ex_attacking_reachable: "reachable_level ex_attacking"
proof -
  have "PrepAttack ex_selected = Inr ex_attacking"
    by (simp add: PrepAttack_def ex_defs Let_def weapon0_def cell_x_def cell_y_def maxNormi_def
        toVertex_def clearCache_def)
  with ex_selected_reachable show ?thesis by (rule reachable_level.attack_prepared)
qed

lemma ex_painted_Think:
  "Think ex_stay ex_WindowToBoard ex_attacking =
     Inr (ex_painted,
          [Upright (1 / 4) (1 / 4) 0, Upright (5 / 4) (1 / 4) 1,
           FlatCell 0 0, FlatCell 0 1, FlatCell 1 0, FlatCell 1 1,
           FlatCopy 0 1 \<lparr>Terrain = Brush, highlight = MouseOver\<rparr>,
           FlatCopy 0 0 \<lparr>Terrain = Grass, highlight = Reachable\<rparr>])"
  by (simp add: Think_def ex_defs Let_def cell_x_def cell_y_def
      maintainCommand_def fromVertex_def set_highlight_def cell_def
      signed_divide_int_def signed_modulo_int_def grid_drawables_def upt_rec numeral_2_eq_2)


lemma ex_painted_reachable: "reachable_level ex_painted"
  using ex_attacking_reachable ex_painted_Think by (rule reachable_level.thought)

lemma ex_step_Think: "\<not> isl (Think ex_step ex_WindowToBoard ex_painted)"
  by (simp add: Think_def ex_defs ex_step_def Let_def cell_x_def cell_y_def clearCache_def
      maintainCommand_def fromVertex_def set_highlight_def cell_def Clear_def
      signed_divide_int_def signed_modulo_int_def upd_entity_def)

theorem Think_clears_cache_on_move_witness:
  "cached ex_painted \<and> highlight (grid ex_painted ! 1 ! 0) = Attackable \<and>
   \<not> cached (fst (Think_entities ex_step (entities ex_painted) ex_painted [])) \<and>
   all_none (grid (fst (Think_entities ex_step (entities ex_painted) ex_painted []))) \<and>
   cached (fst (projr (Think ex_step ex_WindowToBoard ex_painted)))"
proof -
  have d: "distinct (entities ex_painted)" and m: "0 \<in> set (entities ex_painted)"
    by (simp_all add: ex_defs)
  have mv: "moves ex_step (store ex_painted 0)"
    by (simp add: moves_def ex_step_def ex_defs)
  obtain l' ds where t: "Think ex_step ex_WindowToBoard ex_painted = Inr (l', ds)"
    using ex_step_Think by (cases "Think ex_step ex_WindowToBoard ex_painted") auto
  from Think_clears_cache_on_move [OF ex_painted_reachable d m mv, of ex_WindowToBoard l' ds] t
  have "\<not> cached (fst (Think_entities ex_step (entities ex_painted) ex_painted []))"
    and "all_none (grid (fst (Think_entities ex_step (entities ex_painted) ex_painted [])))"
    and "cached l'"
    by auto
  moreover have "cached ex_painted" and "highlight (grid ex_painted ! 1 ! 0) = Attackable"
    by (simp_all add: ex_defs)
  ultimately show ?thesis using t by simp
qed


section \<open>Resolution of an attack\<close>


lemma offset_bounds: "5 \<le> dice \<Longrightarrow> dice \<le> 25 \<Longrightarrow> - 3 \<le> offset dice \<and> offset dice \<le> 3"
  unfolding offset_def signed_divide_int_def by (simp add: sgn_if) presburger

lemma offset_max: "offset 25 = 3"
  by (simp add: offset_def signed_divide_int_def)

lemma Maintain_committed:
  assumes "mark a = Some m" and "Cost a \<le> CurAp (Ents lv (Ent a))"
  shows "\<exists>a' lv'. Maintain att dice a lv = (Complete, a', lv') \<and>
     CurHealth (Ents lv' m) =
       (if Power a + CurAttack (Ents lv (Ent a)) + offset dice \<le> CurDefense (Ents lv m)
        then CurHealth (Ents lv m)
        else CurHealth (Ents lv m) - (Power a + CurAttack (Ents lv (Ent a)) + offset dice - CurDefense (Ents lv m))) \<and>
     signals_sent lv lv' m =
       (if m = Ent a then [if Melee a \<noteq> 0 then ''melee'' else ''ranged''] else []) @
       [''defend'',
        if Power a + CurAttack (Ents lv (Ent a)) + offset dice \<le> CurDefense (Ents lv m) then ''undamaged''
        else if CurHealth (Ents lv m) - (Power a + CurAttack (Ents lv (Ent a)) + offset dice - CurDefense (Ents lv m)) \<le> 0
        then ''killed'' else ''damaged'']"
  using assms
  by (simp add: Maintain_def Cancel_def clearCache_h_def Let_def upd_Entity_def SpendAp_def
      Command_s_def DoDamage_def turnToFace_g_def signals_sent_def)


lemma Maintain_resolution:
  assumes "mark a = Some m" and "Cost a \<le> CurAp (Ents lv (Ent a))"
    and "Maintain attackable dice a lv = (st, a', lv')"
  shows "(Power a + CurAttack (Ents lv (Ent a)) + offset dice \<le> CurDefense (Ents lv m) \<longrightarrow>
            ''undamaged'' \<in> set (signals_sent lv lv' m) \<and>
            ''damaged'' \<notin> set (signals_sent lv lv' m) \<and>
            ''killed'' \<notin> set (signals_sent lv lv' m) \<and>
            CurHealth (Ents lv' m) = CurHealth (Ents lv m)) \<and>
         (5 \<le> dice \<and> dice \<le> 25 \<and>
          Power a + CurAttack (Ents lv (Ent a)) + offset 25 \<le> CurDefense (Ents lv m) \<longrightarrow>
            ''undamaged'' \<in> set (signals_sent lv lv' m) \<and>
            ''damaged'' \<notin> set (signals_sent lv lv' m) \<and>
            ''killed'' \<notin> set (signals_sent lv lv' m) \<and>
            CurHealth (Ents lv' m) = CurHealth (Ents lv m)) \<and>
         (CurDefense (Ents lv m) < Power a + CurAttack (Ents lv (Ent a)) + offset dice \<and>
          CurHealth (Ents lv' m) \<le> 0 \<longrightarrow>
            ''killed'' \<in> set (signals_sent lv lv' m) \<and>
            ''damaged'' \<notin> set (signals_sent lv lv' m)) \<and>
         (CurDefense (Ents lv m) < Power a + CurAttack (Ents lv (Ent a)) + offset dice \<longrightarrow>
            CurHealth (Ents lv' m) = CurHealth (Ents lv m) -
              (Power a + CurAttack (Ents lv (Ent a)) + offset dice - CurDefense (Ents lv m))) \<and>
         offset 25 = 3 \<and> st = Complete"
proof -
  from Maintain_committed [OF assms(1,2), of attackable dice] assms(3)
  have h: "CurHealth (Ents lv' m) =
       (if Power a + CurAttack (Ents lv (Ent a)) + offset dice \<le> CurDefense (Ents lv m)
        then CurHealth (Ents lv m)
        else CurHealth (Ents lv m) - (Power a + CurAttack (Ents lv (Ent a)) + offset dice - CurDefense (Ents lv m)))"
    and sig: "signals_sent lv lv' m =
       (if m = Ent a then [if Melee a \<noteq> 0 then ''melee'' else ''ranged''] else []) @
       [''defend'',
        if Power a + CurAttack (Ents lv (Ent a)) + offset dice \<le> CurDefense (Ents lv m) then ''undamaged''
        else if CurHealth (Ents lv m) - (Power a + CurAttack (Ents lv (Ent a)) + offset dice - CurDefense (Ents lv m)) \<le> 0
        then ''killed'' else ''damaged'']"
    and st: "st = Complete"
    by auto
  have le: "offset dice \<le> offset 25" if "5 \<le> dice" "dice \<le> 25"
    using offset_bounds [OF that] offset_max by simp
  show ?thesis
    using h sig st le offset_max by auto
qed

lemma DoAttack_committed:
  assumes "selected l = Some sel" and "Weapons (store l sel) = weapon # ws"
    and "Cost_w weapon \<le> AP (store l sel)"
    and "maxNormi (cell_x l t) (cell_y l t) (cell_x l sel) (cell_y l sel) \<le> Reach_w weapon"
  shows "\<exists>l'. DoAttack Damage l (Some t) = Inr l' \<and>
     Health (store l' t) =
       (if Connect (Damage weapon (store (paid l sel weapon) sel) (store (paid l sel weapon) t)) = Hit
        then Health (store l t)
               - Piercing (Damage weapon (store (paid l sel weapon) sel) (store (paid l sel weapon) t))
        else Health (store l t)) \<and>
     commands_sent l l' t =
       (if t = sel then [if Reach_w weapon > 2 then ''ranged'' else ''melee''] else []) @
       [''defend'',
        if Connect (Damage weapon (store (paid l sel weapon) sel) (store (paid l sel weapon) t)) \<noteq> Hit
        then ''undamaged''
        else if Health (store l t)
                  - Piercing (Damage weapon (store (paid l sel weapon) sel) (store (paid l sel weapon) t)) \<le> 0
        then ''killed'' else ''damaged'']"
  using assms
  by (simp add: DoAttack_def weapon0_def Let_def paid_def commands_sent_def Command_e_def
      turnToFace_def)

lemma DoAttack_resolution:
  assumes "selected l = Some sel" and "Weapons (store l sel) = weapon # ws"
    and "Cost_w weapon \<le> AP (store l sel)"
    and "maxNormi (cell_x l t) (cell_y l t) (cell_x l sel) (cell_y l sel) \<le> Reach_w weapon"
    and "DoAttack Damage l (Some t) = Inr l'"
  shows "(Connect (Damage weapon (store (paid l sel weapon) sel) (store (paid l sel weapon) t)) \<noteq> Hit \<longrightarrow>
            ''undamaged'' \<in> set (commands_sent l l' t) \<and>
            ''damaged'' \<notin> set (commands_sent l l' t) \<and>
            ''killed'' \<notin> set (commands_sent l l' t) \<and>
            Health (store l' t) = Health (store l t)) \<and>
         (Connect (Damage weapon (store (paid l sel weapon) sel) (store (paid l sel weapon) t)) = Hit \<and>
          Health (store l' t) \<le> 0 \<longrightarrow>
            ''killed'' \<in> set (commands_sent l l' t) \<and>
            ''damaged'' \<notin> set (commands_sent l l' t)) \<and>
         (Connect (Damage weapon (store (paid l sel weapon) sel) (store (paid l sel weapon) t)) = Hit \<longrightarrow>
            Health (store l' t) = Health (store l t) -
              Piercing (Damage weapon (store (paid l sel weapon) sel) (store (paid l sel weapon) t)))"
  using DoAttack_committed [OF assms(1-4), of Damage] assms(5) by auto

text \<open>
  Claim C4. A committed attack is resolved by \<^verbatim>\<open>Maintain\<close> of the basic attack action, called
  with a marked target \<open>m\<close> and enough AP, and by \<^verbatim>\<open>DoAttack\<close> of the level, called with a selected
  entity that has enough AP and a target within reach.

  In \<^verbatim>\<open>Maintain\<close> the roll is \<open>Power + CurAttack + offset\<close>. If the roll is at most the defender's
  defense, the defender's sprite receives \<open>undamaged\<close>, neither \<open>damaged\<close> nor \<open>killed\<close>, and the
  defender's health is unchanged; this is so for every value of the dice (5 to 25) when the
  defense is at least \<open>Power + CurAttack\<close> plus the largest offset, which is 3. If the roll
  exceeds the defense, the health drops by the difference, and if it is then \<open>\<le> 0\<close> the sprite
  receives \<open>killed\<close> and does not receive \<open>damaged\<close>.

  In \<^verbatim>\<open>DoAttack\<close> the roll is compared with the defense inside \<^verbatim>\<open>weapon.Damage\<close>, whose result
  says whether the attack connected. If it did not, the target's sprite receives \<open>undamaged\<close>,
  neither \<open>damaged\<close> nor \<open>killed\<close>, and the target's health is unchanged. If it did, the health
  drops by the damage, and if it is then \<open>\<le> 0\<close> the sprite receives \<open>killed\<close> and does not
  receive \<open>damaged\<close>.
\<close>

theorem attack_resolution_signals:
  "(mark a = Some m \<and> Cost a \<le> CurAp (Ents lv (Ent a)) \<and>
    Maintain attackable dice a lv = (st, a', lv') \<longrightarrow>
      (Power a + CurAttack (Ents lv (Ent a)) + offset dice \<le> CurDefense (Ents lv m) \<longrightarrow>
         ''undamaged'' \<in> set (signals_sent lv lv' m) \<and>
         ''damaged'' \<notin> set (signals_sent lv lv' m) \<and>
         ''killed'' \<notin> set (signals_sent lv lv' m) \<and>
         CurHealth (Ents lv' m) = CurHealth (Ents lv m)) \<and>
      (5 \<le> dice \<and> dice \<le> 25 \<and>
       Power a + CurAttack (Ents lv (Ent a)) + offset 25 \<le> CurDefense (Ents lv m) \<longrightarrow>
         ''undamaged'' \<in> set (signals_sent lv lv' m) \<and>
         ''damaged'' \<notin> set (signals_sent lv lv' m) \<and>
         ''killed'' \<notin> set (signals_sent lv lv' m) \<and>
         CurHealth (Ents lv' m) = CurHealth (Ents lv m)) \<and>
      (CurDefense (Ents lv m) < Power a + CurAttack (Ents lv (Ent a)) + offset dice \<and>
       CurHealth (Ents lv' m) \<le> 0 \<longrightarrow>
         ''killed'' \<in> set (signals_sent lv lv' m) \<and>
         ''damaged'' \<notin> set (signals_sent lv lv' m)) \<and>
      (CurDefense (Ents lv m) < Power a + CurAttack (Ents lv (Ent a)) + offset dice \<longrightarrow>
         CurHealth (Ents lv' m) = CurHealth (Ents lv m) -
           (Power a + CurAttack (Ents lv (Ent a)) + offset dice - CurDefense (Ents lv m))) \<and>
      offset 25 = 3 \<and> st = Complete) \<and>
   (selected l = Some sel \<and> Weapons (store l sel) = weapon # ws \<and>
    Cost_w weapon \<le> AP (store l sel) \<and>
    maxNormi (cell_x l t) (cell_y l t) (cell_x l sel) (cell_y l sel) \<le> Reach_w weapon \<and>
    DoAttack Damage l (Some t) = Inr l' \<longrightarrow>
      (Connect (Damage weapon (store (paid l sel weapon) sel) (store (paid l sel weapon) t)) \<noteq> Hit \<longrightarrow>
         ''undamaged'' \<in> set (commands_sent l l' t) \<and>
         ''damaged'' \<notin> set (commands_sent l l' t) \<and>
         ''killed'' \<notin> set (commands_sent l l' t) \<and>
         Health (store l' t) = Health (store l t)) \<and>
      (Connect (Damage weapon (store (paid l sel weapon) sel) (store (paid l sel weapon) t)) = Hit \<and>
       Health (store l' t) \<le> 0 \<longrightarrow>
         ''killed'' \<in> set (commands_sent l l' t) \<and>
         ''damaged'' \<notin> set (commands_sent l l' t)) \<and>
      (Connect (Damage weapon (store (paid l sel weapon) sel) (store (paid l sel weapon) t)) = Hit \<longrightarrow>
         Health (store l' t) = Health (store l t) -
           Piercing (Damage weapon (store (paid l sel weapon) sel) (store (paid l sel weapon) t))))"
proof (intro conjI impI)
qed (use Maintain_resolution DoAttack_resolution in blast)+

theorem attack_resolution_signals_witness:
  "(''undamaged'' \<in> set (signals_sent ex_GameLevel (snd (snd (Maintain 2 5 ex_action ex_GameLevel))) 1) \<and>
    ''damaged'' \<notin> set (signals_sent ex_GameLevel (snd (snd (Maintain 2 5 ex_action ex_GameLevel))) 1) \<and>
    CurHealth (Ents (snd (snd (Maintain 2 5 ex_action ex_GameLevel))) 1) = 2) \<and>
   (''undamaged''
      \<in> set (signals_sent (upd_Entity 1 (\<lambda>e. e\<lparr>CurDefense := 9\<rparr>) ex_GameLevel)
           (snd (snd (Maintain 2 25 ex_action (upd_Entity 1 (\<lambda>e. e\<lparr>CurDefense := 9\<rparr>) ex_GameLevel)))) 1)) \<and>
   (''killed'' \<in> set (signals_sent ex_GameLevel (snd (snd (Maintain 2 25 ex_action ex_GameLevel))) 1) \<and>
    ''damaged'' \<notin> set (signals_sent ex_GameLevel (snd (snd (Maintain 2 25 ex_action ex_GameLevel))) 1) \<and>
    CurHealth (Ents (snd (snd (Maintain 2 25 ex_action ex_GameLevel))) 1) = - 4) \<and>
   (''undamaged'' \<in> set (commands_sent ex_selected (projr (DoAttack ex_Damage_miss ex_selected (Some 1))) 1) \<and>
    ''damaged'' \<notin> set (commands_sent ex_selected (projr (DoAttack ex_Damage_miss ex_selected (Some 1))) 1) \<and>
    Health (store (projr (DoAttack ex_Damage_miss ex_selected (Some 1))) 1) = 5) \<and>
   (''killed'' \<in> set (commands_sent ex_selected (projr (DoAttack ex_Damage_kill ex_selected (Some 1))) 1) \<and>
    ''damaged'' \<notin> set (commands_sent ex_selected (projr (DoAttack ex_Damage_kill ex_selected (Some 1))) 1) \<and>
    Health (store (projr (DoAttack ex_Damage_kill ex_selected (Some 1))) 1) = - 2)"
proof -
  note M = attack_resolution_signals [THEN conjunct1, rule_format]
  note D = attack_resolution_signals [THEN conjunct2, rule_format]
  have m: "mark ex_action = Some 1" by (simp add: ex_action_def)
  have ap: "Cost ex_action \<le> CurAp (Ents ex_GameLevel (Ent ex_action))"
    by (simp add: ex_action_def ex_GameLevel_def ex_Entity_def)
  have ap': "Cost ex_action \<le> CurAp (Ents (upd_Entity 1 (\<lambda>e. e\<lparr>CurDefense := 9\<rparr>) ex_GameLevel) (Ent ex_action))"
    by (simp add: ex_action_def ex_GameLevel_def ex_Entity_def upd_Entity_def)
  have o5: "offset 5 = - 3" and o25: "offset 25 = 3"
    by (simp_all add: offset_def signed_divide_int_def)
  obtain st1 a1 lv1 where e1: "Maintain 2 5 ex_action ex_GameLevel = (st1, a1, lv1)"
    by (cases "Maintain 2 5 ex_action ex_GameLevel") auto
  obtain st2 a2 lv2 where e2: "Maintain 2 25 ex_action (upd_Entity 1 (\<lambda>e. e\<lparr>CurDefense := 9\<rparr>) ex_GameLevel) = (st2, a2, lv2)"
    by (cases "Maintain 2 25 ex_action (upd_Entity 1 (\<lambda>e. e\<lparr>CurDefense := 9\<rparr>) ex_GameLevel)") auto
  obtain st3 a3 lv3 where e3: "Maintain 2 25 ex_action ex_GameLevel = (st3, a3, lv3)"
    by (cases "Maintain 2 25 ex_action ex_GameLevel") auto
  have pre: "selected ex_selected = Some 0"
    "Weapons (store ex_selected 0) = [\<lparr>Cost_w = 2, Reach_w = 1\<rparr>]"
    "Cost_w \<lparr>Cost_w = 2, Reach_w = 1\<rparr> \<le> AP (store ex_selected 0)"
    "maxNormi (cell_x ex_selected 1) (cell_y ex_selected 1) (cell_x ex_selected 0) (cell_y ex_selected 0)
       \<le> Reach_w \<lparr>Cost_w = 2, Reach_w = 1\<rparr>"
    by (simp_all add: ex_defs cell_x_def cell_y_def maxNormi_def)
  obtain l4 where e4: "DoAttack ex_Damage_miss ex_selected (Some 1) = Inr l4"
    using DoAttack_committed [OF pre, of ex_Damage_miss] by blast
  obtain l5 where e5: "DoAttack ex_Damage_kill ex_selected (Some 1) = Inr l5"
    using DoAttack_committed [OF pre, of ex_Damage_kill] by blast
  have "''undamaged'' \<in> set (signals_sent ex_GameLevel lv1 1) \<and>
        ''damaged'' \<notin> set (signals_sent ex_GameLevel lv1 1) \<and> CurHealth (Ents lv1 1) = 2"
    using M [of ex_action 1 ex_GameLevel 2 5 st1 a1 lv1] m ap e1 o5
    by (simp add: ex_action_def ex_GameLevel_def ex_Entity_def)
  moreover have "''undamaged'' \<in> set (signals_sent (upd_Entity 1 (\<lambda>e. e\<lparr>CurDefense := 9\<rparr>) ex_GameLevel) lv2 1)"
    using M [of ex_action 1 "upd_Entity 1 (\<lambda>e. e\<lparr>CurDefense := 9\<rparr>) ex_GameLevel" 2 25 st2 a2 lv2] m ap' e2 o25
    by (simp add: ex_action_def ex_GameLevel_def ex_Entity_def upd_Entity_def)
  moreover have "''killed'' \<in> set (signals_sent ex_GameLevel lv3 1) \<and>
        ''damaged'' \<notin> set (signals_sent ex_GameLevel lv3 1) \<and> CurHealth (Ents lv3 1) = - 4"
    using M [of ex_action 1 ex_GameLevel 2 25 st3 a3 lv3] m ap e3 o25
    by (simp add: ex_action_def ex_GameLevel_def ex_Entity_def)
  moreover have "''undamaged'' \<in> set (commands_sent ex_selected l4 1) \<and>
        ''damaged'' \<notin> set (commands_sent ex_selected l4 1) \<and> Health (store l4 1) = 5"
    using D [of ex_selected 0 "\<lparr>Cost_w = 2, Reach_w = 1\<rparr>" "[]" 1 ex_Damage_miss l4] pre e4
    by (simp add: ex_Damage_miss_def ex_defs)
  moreover have "''killed'' \<in> set (commands_sent ex_selected l5 1) \<and>
        ''damaged'' \<notin> set (commands_sent ex_selected l5 1) \<and> Health (store l5 1) = - 2"
    using D [of ex_selected 0 "\<lparr>Cost_w = 2, Reach_w = 1\<rparr>" "[]" 1 ex_Damage_kill l5] pre e5
    by (simp add: ex_Damage_kill_def ex_defs)
  ultimately show ?thesis
    using e1 e2 e3 e4 e5 by simp
qed

end
